theory Spec2Isabelle
  imports Main
begin

section \<open>Shallow placeholders of the local filesystem (fs/localfs/shallow\_fs.go)\<close>

text \<open>
  The development embeds the four functions of \<^verbatim>\<open>shallow_fs.go\<close>
  (\<^verbatim>\<open>placeholderPath\<close>, \<^verbatim>\<open>WriteShallowPlaceholder\<close>,
  \<^verbatim>\<open>ReadShallowPlaceholder\<close>, \<^verbatim>\<open>dirEntryFromPlaceholder\<close>) and the
  placeholder-backed entries \<^verbatim>\<open>shallowFilesystemFile\<close> and
  \<^verbatim>\<open>shallowFilesystemDirectory\<close>. The functions are written over an explicit
  filesystem state that is passed in and returned. What the Go standard library and the
  package \<^verbatim>\<open>natefinch/atomic\<close> contribute (\<^verbatim>\<open>filepath.Join\<close>,
  \<^verbatim>\<open>os.Lstat\<close>, \<^verbatim>\<open>os.MkdirAll\<close>, \<^verbatim>\<open>ioutil.ReadFile\<close>,
  \<^verbatim>\<open>atomic.WriteFile\<close>, \<^verbatim>\<open>encoding/json\<close>) is modelled from their
  documented behaviour in the first three subsections.
\<close>

subsection \<open>Path names (path/filepath, Unix)\<close>

definition Separator :: char where
  "Separator = CHR ''/''"

text \<open>
  Modelled from the spec: the declaration of \<^verbatim>\<open>ShallowEntrySuffix\<close> is not among the
  source files. The value is the one the comment at the head of \<^verbatim>\<open>shallow_fs.go\<close>
  spells out (``A placeholder for directory d1 is d1.kopia-entry/.kopia-entry'').
\<close>

definition ShallowEntrySuffix :: string where
  "ShallowEntrySuffix = ''.kopia-entry''"

text \<open>The elements of a path: the text between separators, empty elements included.\<close>

fun splitSep :: "string \<Rightarrow> string list" where
  "splitSep [] = [[]]"
| "splitSep (c # cs) =
     (if c = Separator then [] # splitSep cs
      else (case splitSep cs of [] \<Rightarrow> [[c]] | w # ws \<Rightarrow> (c # w) # ws))"

fun joinSep :: "string list \<Rightarrow> string" where
  "joinSep [] = []"
| "joinSep [w] = w"
| "joinSep (w # ws) = w @ Separator # joinSep ws"

definition isRooted :: "string \<Rightarrow> bool" where
  "isRooted path = (case path of [] \<Rightarrow> False | c # _ \<Rightarrow> c = Separator)"

text \<open>
  One step of \<^verbatim>\<open>filepath.Clean\<close> over the elements kept so far: an empty element
  and \<^verbatim>\<open>.\<close> are dropped; \<^verbatim>\<open>..\<close> removes the last kept element when there
  is one to remove, is kept at the front of a path that is not rooted, and is dropped at
  the root; every other element is kept.
\<close>

definition cleanStep :: "bool \<Rightarrow> string list \<Rightarrow> string \<Rightarrow> string list" where
  "cleanStep rooted out c =
     (if c = [] \<or> c = ''.'' then out
      else if c = ''..'' then
        (if out \<noteq> [] \<and> last out \<noteq> ''..'' then butlast out
         else if rooted then out
         else out @ [''..''])
      else out @ [c])"

text \<open>
  The node a path names, as far as the text of the path decides it: whether the path
  starts at the root, and the elements that remain after cleaning.
\<close>

type_synonym fskey = "bool \<times> string list"

definition pathKey :: "string \<Rightarrow> fskey" where
  "pathKey path = (isRooted path, foldl (cleanStep (isRooted path)) [] (splitSep path))"

definition renderKey :: "fskey \<Rightarrow> string" where
  "renderKey k =
     (if fst k then Separator # joinSep (snd k)
      else if snd k = [] then ''.''
      else joinSep (snd k))"

definition Clean :: "string \<Rightarrow> string" where
  "Clean path = renderKey (pathKey path)"

text \<open>
  \<^verbatim>\<open>filepath.Join\<close> of two elements: leading empty elements are ignored, the rest is
  joined with the separator and the result is cleaned; with no element left the result is
  the empty string.
\<close>

definition filepath_Join :: "string \<Rightarrow> string \<Rightarrow> string" where
  "filepath_Join a b =
     (if a \<noteq> [] then Clean (a @ Separator # b)
      else if b \<noteq> [] then Clean b
      else [])"

subsection \<open>The filesystem\<close>

text \<open>
  A filesystem maps the nodes that exist to what they are: a regular file with its
  content, or a directory. Symbolic links and special files are not part of the model, so
  \<^verbatim>\<open>os.Stat\<close> and \<^verbatim>\<open>os.Lstat\<close> agree, and no call fails for want of
  permission or space. A path is resolved by its text, as \<^verbatim>\<open>filepath.Clean\<close>
  reads it. The root, the working directory and the directories above it
  (\<^verbatim>\<open>..\<close>, \<^verbatim>\<open>../..\<close>) always exist.
\<close>

datatype node = RegularFile string | Directory

type_synonym filesystem = "fskey \<Rightarrow> node option"

datatype os_error = ENOENT | ENOTDIR | EISDIR | EINVAL

datatype FileInfo = FileInfo (IsDir: bool)

definition nodeAt :: "filesystem \<Rightarrow> fskey \<Rightarrow> node option" where
  "nodeAt fs k = (if list_all (\<lambda>c. c = ''..'') (snd k) then Some Directory else fs k)"

definition os_Lstat :: "filesystem \<Rightarrow> string \<Rightarrow> os_error + FileInfo" where
  "os_Lstat fs path =
     (if path = [] then Inl ENOENT
      else (case nodeAt fs (pathKey path) of
              None \<Rightarrow> Inl ENOENT
            | Some n \<Rightarrow> Inr (FileInfo (n = Directory))))"

definition ioutil_ReadFile :: "filesystem \<Rightarrow> string \<Rightarrow> os_error + string" where
  "ioutil_ReadFile fs path =
     (if path = [] then Inl ENOENT
      else (case nodeAt fs (pathKey path) of
              None \<Rightarrow> Inl ENOENT
            | Some Directory \<Rightarrow> Inl EISDIR
            | Some (RegularFile b) \<Rightarrow> Inr b))"

text \<open>
  \<^verbatim>\<open>os.MkdirAll\<close>: a path that names a directory is left alone, a path that names
  anything else is an error; otherwise the parent is made first (with its own parents) and
  then the directory itself. The elements are taken innermost first.
\<close>

fun mkdirAllFrom :: "filesystem \<Rightarrow> bool \<Rightarrow> string list \<Rightarrow> os_error + filesystem" where
  "mkdirAllFrom fs rooted [] = Inr fs"
| "mkdirAllFrom fs rooted (c # up) =
     (case nodeAt fs (rooted, rev (c # up)) of
        Some Directory \<Rightarrow> Inr fs
      | Some (RegularFile b) \<Rightarrow> Inl ENOTDIR
      | None \<Rightarrow>
          (case mkdirAllFrom fs rooted up of
             Inl err \<Rightarrow> Inl err
           | Inr fs' \<Rightarrow> Inr (fs'((rooted, rev (c # up)) \<mapsto> Directory))))"

definition os_MkdirAll :: "filesystem \<Rightarrow> string \<Rightarrow> os_error + filesystem" where
  "os_MkdirAll fs path =
     (if path = [] then Inl ENOENT
      else mkdirAllFrom fs (fst (pathKey path)) (rev (snd (pathKey path))))"

text \<open>
  \<^verbatim>\<open>atomic.WriteFile\<close>: the content goes to a temporary file in the directory of the
  target, which is then renamed onto the target. The directory must exist, the last
  element of the path must be a name, and a directory cannot be replaced by a file. When
  the call returns without error the target is a regular file with the content, and the
  temporary file is gone; when it fails the temporary file is removed again.
\<close>

definition atomic_WriteFile :: "filesystem \<Rightarrow> string \<Rightarrow> string \<Rightarrow> os_error + filesystem" where
  "atomic_WriteFile fs filename content =
     (let k = pathKey filename; file = last (splitSep filename) in
      if filename = [] then Inl ENOENT
      else if file = [] \<or> file = ''.'' \<or> file = ''..'' then Inl EINVAL
      else (case nodeAt fs (fst k, butlast (snd k)) of
              None \<Rightarrow> Inl ENOENT
            | Some (RegularFile b) \<Rightarrow> Inl ENOTDIR
            | Some Directory \<Rightarrow>
                (case nodeAt fs k of
                   Some Directory \<Rightarrow> Inl EISDIR
                 | _ \<Rightarrow> Inr (fs(k \<mapsto> RegularFile content)))))"

subsection \<open>Directory entries and their JSON form (encoding/json)\<close>

text \<open>
  Modelled from the spec: \<^verbatim>\<open>snapshot.EntryType\<close> and \<^verbatim>\<open>snapshot.DirEntry\<close> are
  declared outside the source files. The entry type is a string, as the tests write it
  (\<^verbatim>\<open>Type: "d"\<close>, \<^verbatim>\<open>Type: "f"\<close>); the record has the fields that the data
  model of the specification lists: name, type, objectID, mode, size and modTime (here a
  count of nanoseconds).
\<close>

type_synonym EntryType = string

definition EntryTypeFile :: EntryType where
  "EntryTypeFile = ''f''"

definition EntryTypeDirectory :: EntryType where
  "EntryTypeDirectory = ''d''"

definition EntryTypeSymlink :: EntryType where
  "EntryTypeSymlink = ''s''"

record DirEntry =
  Name :: string
  Type :: EntryType
  ObjectID :: string
  Mode :: nat
  Size :: int
  ModTime :: int

definition emptyDirEntry :: DirEntry where
  "emptyDirEntry = \<lparr>Name = [], Type = [], ObjectID = [], Mode = 0, Size = 0, ModTime = 0\<rparr>"

definition dquote :: char where
  "dquote = CHR 0x22"

definition backslash :: char where
  "backslash = CHR 0x5C"

definition newline :: char where
  "newline = CHR 0x0A"

text \<open>
  Strings are written as the encoder of \<^verbatim>\<open>encoding/json\<close> writes text: the quote
  and the backslash are escaped with a backslash, newline, carriage return and tab have
  their short escapes, every other control character and the three characters
  \<^verbatim>\<open><\<close>, \<^verbatim>\<open>>\<close>, \<^verbatim>\<open>&\<close> become \<^verbatim>\<open>\u00XX\<close>, and all other bytes are
  copied (for bytes from 0x80 up this is what the encoder does inside well-formed UTF-8
  text other than the two line separators U+2028 and U+2029).
\<close>

definition hexdigit :: "nat \<Rightarrow> char" where
  "hexdigit n = (if n < 10 then char_of (48 + n) else char_of (87 + n))"

definition json_escape_char :: "char \<Rightarrow> string" where
  "json_escape_char c =
     (if c = dquote \<or> c = backslash then [backslash, c]
      else if c = newline then [backslash, CHR ''n'']
      else if c = CHR 0x0D then [backslash, CHR ''r'']
      else if c = CHR 0x09 then [backslash, CHR ''t'']
      else if (of_char c :: nat) < 32 \<or> c = CHR ''<'' \<or> c = CHR ''>'' \<or> c = CHR ''&'' then
        [backslash, CHR ''u'', CHR ''0'', CHR ''0'',
         hexdigit ((of_char c :: nat) div 16), hexdigit ((of_char c :: nat) mod 16)]
      else [c])"

definition json_quote :: "string \<Rightarrow> string" where
  "json_quote s = dquote # concat (map json_escape_char s) @ [dquote]"

fun show_nat :: "nat \<Rightarrow> string" where
  "show_nat n =
     (if n < 10 then [char_of (48 + n)]
      else show_nat (n div 10) @ [char_of (48 + n mod 10)])"

declare show_nat.simps [simp del]

definition show_int :: "int \<Rightarrow> string" where
  "show_int i = (if i < 0 then CHR ''-'' # show_nat (nat (- i)) else show_nat (nat i))"

definition json_member :: "string \<Rightarrow> string \<Rightarrow> string" where
  "json_member k v = json_quote k @ CHR '':'' # v"

datatype json_error = SyntaxError | UnmarshalTypeError | EOF

text \<open>
  \<^verbatim>\<open>json.Marshal\<close> of a directory entry: one object on one line, the fields in the
  order of their declaration. \<^verbatim>\<open>Encoder.Encode\<close> writes that encoding followed by a
  newline character.
\<close>

definition json_Marshal :: "DirEntry \<Rightarrow> json_error + string" where
  "json_Marshal de =
     Inr (CHR ''{'' #
          json_member ''name'' (json_quote (Name de)) @ CHR '','' #
          json_member ''type'' (json_quote (Type de)) @ CHR '','' #
          json_member ''objectID'' (json_quote (ObjectID de)) @ CHR '','' #
          json_member ''mode'' (show_nat (Mode de)) @ CHR '','' #
          json_member ''size'' (show_int (Size de)) @ CHR '','' #
          json_member ''modTime'' (show_int (ModTime de)) @ ''}'')"

definition json_Encode :: "DirEntry \<Rightarrow> json_error + string" where
  "json_Encode de = (case json_Marshal de of Inl err \<Rightarrow> Inl err | Inr b \<Rightarrow> Inr (b @ [newline]))"

text \<open>The values a JSON text denotes; a number keeps its literal.\<close>

datatype json =
    JNull
  | JBool bool
  | JNumber string
  | JString string
  | JArray "json list"
  | JObject "(string \<times> json) list"

text \<open>The JSON value that the encoding of a directory entry denotes.\<close>

definition json_of_DirEntry :: "DirEntry \<Rightarrow> json" where
  "json_of_DirEntry de =
     JObject [(''name'', JString (Name de)), (''type'', JString (Type de)),
              (''objectID'', JString (ObjectID de)), (''mode'', JNumber (show_nat (Mode de))),
              (''size'', JNumber (show_int (Size de))), (''modTime'', JNumber (show_int (ModTime de)))]"

definition is_ws :: "char \<Rightarrow> bool" where
  "is_ws c = (c = CHR '' '' \<or> c = CHR 0x09 \<or> c = newline \<or> c = CHR 0x0D)"

definition skip_ws :: "string \<Rightarrow> string" where
  "skip_ws s = dropWhile is_ws s"

definition is_digit :: "char \<Rightarrow> bool" where
  "is_digit c = (48 \<le> (of_char c :: nat) \<and> (of_char c :: nat) \<le> 57)"

definition hexval :: "char \<Rightarrow> nat option" where
  "hexval c =
     (let n = (of_char c :: nat) in
      if 48 \<le> n \<and> n \<le> 57 then Some (n - 48)
      else if 97 \<le> n \<and> n \<le> 102 then Some (n - 87)
      else if 65 \<le> n \<and> n \<le> 70 then Some (n - 55)
      else None)"

definition hex4 :: "char \<Rightarrow> char \<Rightarrow> char \<Rightarrow> char \<Rightarrow> nat option" where
  "hex4 a b c d =
     (case (hexval a, hexval b, hexval c, hexval d) of
        (Some w, Some x, Some y, Some z) \<Rightarrow> Some (4096 * w + 256 * x + 16 * y + z)
      | _ \<Rightarrow> None)"

definition utf8 :: "nat \<Rightarrow> string" where
  "utf8 n =
     (if n < 128 then [char_of n]
      else if n < 2048 then [char_of (192 + n div 64), char_of (128 + n mod 64)]
      else if n < 65536 then
        [char_of (224 + n div 4096), char_of (128 + (n div 64) mod 64), char_of (128 + n mod 64)]
      else
        [char_of (240 + n div 262144), char_of (128 + (n div 4096) mod 64),
         char_of (128 + (n div 64) mod 64), char_of (128 + n mod 64)])"

definition unescape :: "char \<Rightarrow> char option" where
  "unescape c =
     (if c = dquote \<or> c = backslash \<or> c = CHR ''/'' then Some c
      else if c = CHR ''b'' then Some (CHR 0x08)
      else if c = CHR ''f'' then Some (CHR 0x0C)
      else if c = CHR ''n'' then Some newline
      else if c = CHR ''r'' then Some (CHR 0x0D)
      else if c = CHR ''t'' then Some (CHR 0x09)
      else None)"

text \<open>
  The code point of a surrogate pair, when the text after the high half \<open>n\<close> goes
  on with the escape of a low half (six characters).
\<close>

definition low_surrogate :: "nat \<Rightarrow> string \<Rightarrow> nat option" where
  "low_surrogate n s =
     (case s of
        b # u # g1 # g2 # g3 # g4 # r \<Rightarrow>
          (if b = backslash \<and> u = CHR ''u'' \<and> 55296 \<le> n \<and> n < 56320 then
             (case hex4 g1 g2 g3 g4 of
                Some m \<Rightarrow>
                  (if 56320 \<le> m \<and> m < 57344
                   then Some (65536 + (n - 55296) * 1024 + (m - 56320))
                   else None)
              | None \<Rightarrow> None)
           else None)
      | _ \<Rightarrow> None)"

text \<open>
  The characters of a string literal after its opening quote, up to the closing quote:
  the text they stand for and the input after the closing quote. A control character
  and an unknown escape are syntax errors; a lone surrogate stands for U+FFFD.
\<close>

fun json_chars :: "string \<Rightarrow> (string \<times> string) option" where
  "json_chars [] = None"
| "json_chars (c # cs) =
     (if c = dquote then Some ([], cs)
      else if c = backslash then
        (case cs of
           [] \<Rightarrow> None
         | e # r \<Rightarrow>
             (if e = CHR ''u'' then
                (case r of
                   h1 # h2 # h3 # h4 # r' \<Rightarrow>
                     (case hex4 h1 h2 h3 h4 of
                        None \<Rightarrow> None
                      | Some n \<Rightarrow>
                          (if 55296 \<le> n \<and> n < 57344 then
                             (case low_surrogate n r' of
                                Some cp \<Rightarrow>
                                  (case json_chars (drop 6 r') of
                                     None \<Rightarrow> None
                                   | Some (s, rest) \<Rightarrow> Some (utf8 cp @ s, rest))
                              | None \<Rightarrow>
                                  (case json_chars r' of
                                     None \<Rightarrow> None
                                   | Some (s, rest) \<Rightarrow> Some (utf8 65533 @ s, rest)))
                           else
                             (case json_chars r' of
                                None \<Rightarrow> None
                              | Some (s, rest) \<Rightarrow> Some (utf8 n @ s, rest))))
                 | _ \<Rightarrow> None)
              else
                (case unescape e of
                   None \<Rightarrow> None
                 | Some ch \<Rightarrow>
                     (case json_chars r of
                        None \<Rightarrow> None
                      | Some (s, rest) \<Rightarrow> Some (ch # s, rest)))))
      else if (of_char c :: nat) < 32 then None
      else (case json_chars cs of
              None \<Rightarrow> None
            | Some (s, rest) \<Rightarrow> Some (c # s, rest)))"

text \<open>
  A number literal: an optional minus sign, a zero or a run of digits that does not start
  with zero, an optional fraction and an optional exponent.
\<close>

definition scan_frac :: "string \<Rightarrow> (string \<times> string) option" where
  "scan_frac s =
     (case s of
        [] \<Rightarrow> Some ([], s)
      | c # r \<Rightarrow>
          (if c = CHR ''.'' then
             (if takeWhile is_digit r = [] then None
              else Some (c # takeWhile is_digit r, dropWhile is_digit r))
           else Some ([], s)))"

definition scan_exp :: "string \<Rightarrow> (string \<times> string) option" where
  "scan_exp s =
     (case s of
        [] \<Rightarrow> Some ([], s)
      | c # r \<Rightarrow>
          (if c = CHR ''e'' \<or> c = CHR ''E'' then
             (let sg = (case r of [] \<Rightarrow> [] | d # r' \<Rightarrow> if d = CHR ''+'' \<or> d = CHR ''-'' then [d] else []);
                  r1 = drop (length sg) r
              in if takeWhile is_digit r1 = [] then None
                 else Some (c # sg @ takeWhile is_digit r1, dropWhile is_digit r1))
           else Some ([], s)))"

definition scan_number :: "string \<Rightarrow> (string \<times> string) option" where
  "scan_number s =
     (let sg = (case s of [] \<Rightarrow> [] | c # r \<Rightarrow> if c = CHR ''-'' then [c] else []);
          s1 = drop (length sg) s;
          ip = (case s1 of [] \<Rightarrow> [] | c # r \<Rightarrow> if c = CHR ''0'' then [c] else takeWhile is_digit s1);
          s2 = drop (length ip) s1
      in if ip = [] then None
         else (case scan_frac s2 of
                 None \<Rightarrow> None
               | Some (fr, s3) \<Rightarrow>
                   (case scan_exp s3 of
                      None \<Rightarrow> None
                    | Some (ex, s4) \<Rightarrow> Some (sg @ ip @ fr @ ex, s4))))"

text \<open>
  What follows a number in the encoder's output: a comma or a closing brace.
\<close>

definition ends_number :: "string \<Rightarrow> bool" where
  "ends_number rest = (case rest of [] \<Rightarrow> False | c # r \<Rightarrow> c = CHR '','' \<or> c = CHR ''}'')"

definition strip_prefix :: "string \<Rightarrow> string \<Rightarrow> string option" where
  "strip_prefix p s = (if take (length p) s = p then Some (drop (length p) s) else None)"

text \<open>
  One JSON value at the front of the input, and the input after it. Space before a token
  is skipped. The first argument bounds the depth of the calls; the decoder passes more
  than the length of the input.
\<close>

fun parse_value :: "nat \<Rightarrow> string \<Rightarrow> (json \<times> string) option"
  and parse_elements :: "nat \<Rightarrow> string \<Rightarrow> (json list \<times> string) option"
  and parse_members :: "nat \<Rightarrow> string \<Rightarrow> ((string \<times> json) list \<times> string) option"
where
  "parse_value 0 s = None"
| "parse_value (Suc n) s =
     (case skip_ws s of
        [] \<Rightarrow> None
      | c # cs \<Rightarrow>
          (if c = CHR ''{'' then
             (case skip_ws cs of
                [] \<Rightarrow> None
              | d # ds \<Rightarrow>
                  (if d = CHR ''}'' then Some (JObject [], ds)
                   else map_option (\<lambda>(kvs, r). (JObject kvs, r)) (parse_members n cs)))
           else if c = CHR ''['' then
             (case skip_ws cs of
                [] \<Rightarrow> None
              | d # ds \<Rightarrow>
                  (if d = CHR '']'' then Some (JArray [], ds)
                   else map_option (\<lambda>(vs, r). (JArray vs, r)) (parse_elements n cs)))
           else if c = dquote then map_option (\<lambda>(t, r). (JString t, r)) (json_chars cs)
           else if c = CHR ''t'' then map_option (\<lambda>r. (JBool True, r)) (strip_prefix ''true'' (c # cs))
           else if c = CHR ''f'' then map_option (\<lambda>r. (JBool False, r)) (strip_prefix ''false'' (c # cs))
           else if c = CHR ''n'' then map_option (\<lambda>r. (JNull, r)) (strip_prefix ''null'' (c # cs))
           else map_option (\<lambda>(lit, r). (JNumber lit, r)) (scan_number (c # cs))))"
| "parse_elements 0 s = None"
| "parse_elements (Suc n) s =
     (case parse_value n s of
        None \<Rightarrow> None
      | Some (v, r) \<Rightarrow>
          (case skip_ws r of
             [] \<Rightarrow> None
           | d # ds \<Rightarrow>
               (if d = CHR '']'' then Some ([v], ds)
                else if d = CHR '','' then
                  map_option (\<lambda>(vs, r'). (v # vs, r')) (parse_elements n ds)
                else None)))"
| "parse_members 0 s = None"
| "parse_members (Suc n) s =
     (case skip_ws s of
        [] \<Rightarrow> None
      | q # cs \<Rightarrow>
          (if q = dquote then
             (case json_chars cs of
                None \<Rightarrow> None
              | Some (k, r) \<Rightarrow>
                  (case skip_ws r of
                     [] \<Rightarrow> None
                   | c # r1 \<Rightarrow>
                       (if c = CHR '':'' then
                          (case parse_value n r1 of
                             None \<Rightarrow> None
                           | Some (v, r2) \<Rightarrow>
                               (case skip_ws r2 of
                                  [] \<Rightarrow> None
                                | d # ds \<Rightarrow>
                                    (if d = CHR ''}'' then Some ([(k, v)], ds)
                                     else if d = CHR '','' then
                                       map_option (\<lambda>(kvs, r'). ((k, v) # kvs, r')) (parse_members n ds)
                                     else None)))
                        else None)))
           else None))"

text \<open>
  Storing a JSON value in a directory entry, as \<^verbatim>\<open>Unmarshal\<close> does for a struct: a
  member is matched to a field by its key without regard to the case of ASCII letters, a
  member with an unknown key is skipped, \<^verbatim>\<open>null\<close> leaves a field as it is, and a
  value of the wrong kind is an error. A whole-number literal is required for the number
  fields.
\<close>

definition lower_ascii :: "char \<Rightarrow> char" where
  "lower_ascii c =
     (if 65 \<le> (of_char c :: nat) \<and> (of_char c :: nat) \<le> 90 then char_of ((of_char c :: nat) + 32) else c)"

definition digits_value :: "string \<Rightarrow> nat" where
  "digits_value ds = foldl (\<lambda>a c. 10 * a + ((of_char c :: nat) - 48)) 0 ds"

definition nat_of_literal :: "string \<Rightarrow> nat option" where
  "nat_of_literal lit = (if lit \<noteq> [] \<and> list_all is_digit lit then Some (digits_value lit) else None)"

definition int_of_literal :: "string \<Rightarrow> int option" where
  "int_of_literal lit =
     (case lit of
        [] \<Rightarrow> None
      | c # r \<Rightarrow>
          (if c = CHR ''-'' then map_option (\<lambda>n. - int n) (nat_of_literal r)
           else map_option int (nat_of_literal lit)))"

definition string_field :: "json \<Rightarrow> string \<Rightarrow> string option" where
  "string_field v old = (case v of JString t \<Rightarrow> Some t | JNull \<Rightarrow> Some old | _ \<Rightarrow> None)"

definition nat_field :: "json \<Rightarrow> nat \<Rightarrow> nat option" where
  "nat_field v old = (case v of JNumber lit \<Rightarrow> nat_of_literal lit | JNull \<Rightarrow> Some old | _ \<Rightarrow> None)"

definition int_field :: "json \<Rightarrow> int \<Rightarrow> int option" where
  "int_field v old = (case v of JNumber lit \<Rightarrow> int_of_literal lit | JNull \<Rightarrow> Some old | _ \<Rightarrow> None)"

definition set_field :: "DirEntry \<Rightarrow> string \<times> json \<Rightarrow> DirEntry option" where
  "set_field de kv =
     (let k = map lower_ascii (fst kv); v = snd kv in
      if k = ''name'' then map_option (\<lambda>t. de\<lparr>Name := t\<rparr>) (string_field v (Name de))
      else if k = ''type'' then map_option (\<lambda>t. de\<lparr>Type := t\<rparr>) (string_field v (Type de))
      else if k = ''objectid'' then map_option (\<lambda>t. de\<lparr>ObjectID := t\<rparr>) (string_field v (ObjectID de))
      else if k = ''mode'' then map_option (\<lambda>n. de\<lparr>Mode := n\<rparr>) (nat_field v (Mode de))
      else if k = ''size'' then map_option (\<lambda>n. de\<lparr>Size := n\<rparr>) (int_field v (Size de))
      else if k = ''modtime'' then map_option (\<lambda>n. de\<lparr>ModTime := n\<rparr>) (int_field v (ModTime de))
      else Some de)"

fun set_fields :: "DirEntry \<Rightarrow> (string \<times> json) list \<Rightarrow> DirEntry option" where
  "set_fields de [] = Some de"
| "set_fields de (kv # kvs) =
     (case set_field de kv of None \<Rightarrow> None | Some de' \<Rightarrow> set_fields de' kvs)"

definition json_Unmarshal :: "json \<Rightarrow> DirEntry \<Rightarrow> json_error + DirEntry" where
  "json_Unmarshal v de =
     (case v of
        JObject kvs \<Rightarrow> (case set_fields de kvs of None \<Rightarrow> Inl UnmarshalTypeError | Some de' \<Rightarrow> Inr de')
      | JNull \<Rightarrow> Inr de
      | _ \<Rightarrow> Inl UnmarshalTypeError)"

text \<open>
  \<^verbatim>\<open>Decoder.Decode\<close> reads the next JSON value from the buffer and stores it in the
  entry; what follows the value in the buffer is not looked at. A buffer with nothing but
  space is the error \<^verbatim>\<open>io.EOF\<close>.
\<close>

definition json_Decode :: "string \<Rightarrow> DirEntry \<Rightarrow> json_error + DirEntry" where
  "json_Decode b de =
     (if skip_ws b = [] then Inl EOF
      else (case parse_value (Suc (length b)) b of
              None \<Rightarrow> Inl SyntaxError
            | Some (v, rest) \<Rightarrow> json_Unmarshal v de))"

subsection \<open>Errors\<close>

text \<open>
  An error is the value the Go code builds: \<^verbatim>\<open>errors.New\<close>, \<^verbatim>\<open>errors.Errorf\<close> with
  its format and arguments, \<^verbatim>\<open>errors.Wrap\<close> and \<^verbatim>\<open>errors.Wrapf\<close> around a cause, or
  a cause that comes from the operating system or from the JSON decoder.
\<close>

datatype error =
    OSError os_error
  | JSONError json_error
  | New string
  | Errorf string "string list"
  | Wrap error string
  | Wrapf error string "string list"

text \<open>
  The names that the error taxonomy of the specification gives to three of these values.
\<close>

definition Corrupt :: "string \<Rightarrow> string \<Rightarrow> error" where
  "Corrupt path php =
     Errorf ''%q, %q exist: shallowrestore tree is corrupt probably because a previous restore into a shallow tree was interrupted''
       [path, php]"

definition NotFound :: "string \<Rightarrow> error" where
  "NotFound path = Errorf ''didn't find original or placeholder for %q'' [path]"

definition UnsupportedEntryType :: "EntryType \<Rightarrow> error" where
  "UnsupportedEntryType et = Errorf ''unsupported entry type: %v'' [et]"

subsection \<open>shallow\_fs.go\<close>

text \<open>
  Each function takes the filesystem and, where it writes, returns the new one beside its
  result; a result is the value or the error.
  \<^verbatim>\<open>
  func placeholderPath(path string, et snapshot.EntryType) (string, error) {
      switch et {
      case snapshot.EntryTypeFile:
          return path + ShallowEntrySuffix, nil
      case snapshot.EntryTypeDirectory: // Directories and regular files
          dirpath := path + ShallowEntrySuffix
          if err := os.MkdirAll(dirpath, os.FileMode(dirMode)); err != nil {
              return "", errors.Wrap(err, "placeholderPath dir creation")
          }
          return filepath.Join(dirpath, ShallowEntrySuffix), nil
      default:
          // Shouldn't be used on links or other file types.
          return "", errors.Errorf("unsupported entry type: %v", et)
      }
  }
  \<close>
\<close>

definition placeholderPath :: "filesystem \<Rightarrow> string \<Rightarrow> EntryType \<Rightarrow> (error + string) \<times> filesystem" where
  "placeholderPath fs path et =
     (if et = EntryTypeFile then (Inr (path @ ShallowEntrySuffix), fs)
      else if et = EntryTypeDirectory then
        (let dirpath = path @ ShallowEntrySuffix in
         case os_MkdirAll fs dirpath of
           Inl err \<Rightarrow> (Inl (Wrap (OSError err) ''placeholderPath dir creation''), fs)
         | Inr fs' \<Rightarrow> (Inr (filepath_Join dirpath ShallowEntrySuffix), fs'))
      else (Inl (Errorf ''unsupported entry type: %v'' [et]), fs))"

text \<open>
  \<^verbatim>\<open>
  func WriteShallowPlaceholder(path string, de *snapshot.DirEntry) (string, error) {
      buffy := &bytes.Buffer{}
      encoder := json.NewEncoder(buffy)
      if err := encoder.Encode(de); err != nil {
          return "", errors.Wrapf(err, "json encoding DirEntry")
      }
      mp, err := placeholderPath(path, de.Type)
      if err != nil {
          return "", errors.Wrapf(err, "computing placeholder path: %q", path)
      }
      // Write the placeholder file.
      if err := atomic.WriteFile(mp, buffy); err != nil {
          return "", errors.Wrapf(err, "error writing placeholder to %q", mp)
      }
      return mp, nil
  }
  \<close>
\<close>

definition WriteShallowPlaceholder :: "filesystem \<Rightarrow> string \<Rightarrow> DirEntry \<Rightarrow> (error + string) \<times> filesystem" where
  "WriteShallowPlaceholder fs path de =
     (case json_Encode de of
        Inl err \<Rightarrow> (Inl (Wrapf (JSONError err) ''json encoding DirEntry'' []), fs)
      | Inr buffy \<Rightarrow>
          (case placeholderPath fs path (Type de) of
             (Inl err, fs1) \<Rightarrow> (Inl (Wrapf err ''computing placeholder path: %q'' [path]), fs1)
           | (Inr mp, fs1) \<Rightarrow>
               (case atomic_WriteFile fs1 mp buffy of
                  Inl err \<Rightarrow> (Inl (Wrapf (OSError err) ''error writing placeholder to %q'' [mp]), fs1)
                | Inr fs2 \<Rightarrow> (Inr mp, fs2))))"

text \<open>
  \<^verbatim>\<open>
  func dirEntryFromPlaceholder(path string) (*snapshot.DirEntry, error) {
      b, err := ioutil.ReadFile(path)
      if err != nil {
          return nil, errors.Wrap(err, "dirEntryFromPlaceholder reading placeholder")
      }
      direntry := &snapshot.DirEntry{}
      buffy := bytes.NewBuffer(b)
      decoder := json.NewDecoder(buffy)
      if err := decoder.Decode(direntry); err != nil {
          return nil, errors.Wrap(err, "dirEntryFromPlaceholder JSON decoding")
      }
      return direntry, nil
  }
  \<close>
\<close>

definition dirEntryFromPlaceholder :: "filesystem \<Rightarrow> string \<Rightarrow> error + DirEntry" where
  "dirEntryFromPlaceholder fs path =
     (case ioutil_ReadFile fs path of
        Inl err \<Rightarrow> Inl (Wrap (OSError err) ''dirEntryFromPlaceholder reading placeholder'')
      | Inr b \<Rightarrow>
          (case json_Decode b emptyDirEntry of
             Inl err \<Rightarrow> Inl (Wrap (JSONError err) ''dirEntryFromPlaceholder JSON decoding'')
           | Inr direntry \<Rightarrow> Inr direntry))"

text \<open>
  \<^verbatim>\<open>
  func ReadShallowPlaceholder(path string) (*snapshot.DirEntry, error) {
      originalpresent := false
      if _, err := os.Lstat(path); err == nil {
          originalpresent = true
      }
      // Otherwise, the path should be a placeholder.
      php := path + ShallowEntrySuffix
      fi, err := os.Lstat(php)
      switch {
      case err == nil && originalpresent:
          return nil, errors.Errorf("%q, %q exist: shallowrestore tree is corrupt ...", path, php)
      case err == nil && fi.IsDir():
          php = filepath.Join(php, ShallowEntrySuffix)
      }
      if de, err := dirEntryFromPlaceholder(php); err == nil {
          return de, nil
      }
      if originalpresent {
          // The original path exists and there is no placeholder.
          return nil, nil
      }
      return nil, errors.Errorf("didn't find original or placeholder for %q", path)
  }
  \<close>
  The result is the entry (\<open>Some\<close>), or \<open>None\<close> for the pair
  \<^verbatim>\<open>nil, nil\<close> of the Go code, or the error.
\<close>

definition ReadShallowPlaceholder :: "filesystem \<Rightarrow> string \<Rightarrow> error + DirEntry option" where
  "ReadShallowPlaceholder fs path =
     (let originalpresent = (case os_Lstat fs path of Inl err \<Rightarrow> False | Inr fi \<Rightarrow> True);
          php = path @ ShallowEntrySuffix;
          r = os_Lstat fs php
      in if (case r of Inl err \<Rightarrow> False | Inr fi \<Rightarrow> True) \<and> originalpresent then
           Inl (Errorf ''%q, %q exist: shallowrestore tree is corrupt probably because a previous restore into a shallow tree was interrupted''
                  [path, php])
         else
           (let php2 = (if (case r of Inl err \<Rightarrow> False | Inr fi \<Rightarrow> IsDir fi)
                        then filepath_Join php ShallowEntrySuffix else php)
            in case dirEntryFromPlaceholder fs php2 of
                 Inr de \<Rightarrow> Inr (Some de)
               | Inl err \<Rightarrow>
                   if originalpresent then Inr None
                   else Inl (Errorf ''didn't find original or placeholder for %q'' [path])))"

text \<open>
  Modelled from the spec: \<^verbatim>\<open>filesystemEntry\<close> and the interfaces \<^verbatim>\<open>fs.Reader\<close>,
  \<^verbatim>\<open>fs.Entry\<close> and \<^verbatim>\<open>fs.Entries\<close> are declared outside the source files. An entry
  is given by the path that its \<^verbatim>\<open>fullPath()\<close> returns; the interfaces stay
  unspecified types.
\<close>

datatype filesystemEntry = FilesystemEntry (fullPath: string)

typedecl fs_Reader

typedecl fs_Entry

type_synonym shallowFilesystemFile = filesystemEntry

type_synonym shallowFilesystemDirectory = filesystemEntry

definition shallowFilesystemFile_DirEntryOrNil :: "filesystem \<Rightarrow> shallowFilesystemFile \<Rightarrow> error + DirEntry option" where
  "shallowFilesystemFile_DirEntryOrNil fs fsf = ReadShallowPlaceholder fs (fullPath fsf)"

definition shallowFilesystemDirectory_DirEntryOrNil :: "filesystem \<Rightarrow> shallowFilesystemDirectory \<Rightarrow> error + DirEntry option" where
  "shallowFilesystemDirectory_DirEntryOrNil fs fsd = ReadShallowPlaceholder fs (fullPath fsd)"

definition shallowFilesystemFile_Open :: "shallowFilesystemFile \<Rightarrow> error + fs_Reader" where
  "shallowFilesystemFile_Open fsf = Inl (New ''shallowFilesystemFile.Open not supported'')"

definition shallowFilesystemDirectory_Child :: "shallowFilesystemDirectory \<Rightarrow> string \<Rightarrow> error + fs_Entry" where
  "shallowFilesystemDirectory_Child fsd name = Inl (New ''shallowFilesystemDirectory.Child not supported'')"

definition shallowFilesystemDirectory_Readdir :: "shallowFilesystemDirectory \<Rightarrow> error + fs_Entry list" where
  "shallowFilesystemDirectory_Readdir fsd = Inl (New ''shallowFilesystemDirectory.Readdir not supported'')"

subsection \<open>Snapshot creation over a tree with placeholders\<close>

text \<open>
  Modelled from the spec: snapshot creation and its integrity validator (section 4.4 of
  the specification) are not among the source files. The scan goes through the logical
  paths of the local tree and asks each for its placeholder. The whole operation fails at
  the first path whose lookup fails (a real entry and a placeholder for the same path
  among them), and at the first placeholder whose object the repository does not resolve
  to an object of the entry's type.
\<close>

definition ForeignOrInvalidObject :: error where
  "ForeignOrInvalidObject = New ''ForeignOrInvalidObject''"

fun snapshotCreate :: "(DirEntry \<Rightarrow> bool) \<Rightarrow> filesystem \<Rightarrow> string list \<Rightarrow> error + unit" where
  "snapshotCreate resolves fs [] = Inr ()"
| "snapshotCreate resolves fs (p # ps) =
     (case ReadShallowPlaceholder fs p of
        Inl err \<Rightarrow> Inl err
      | Inr None \<Rightarrow> snapshotCreate resolves fs ps
      | Inr (Some de) \<Rightarrow>
          (if resolves de then snapshotCreate resolves fs ps
           else Inl ForeignOrInvalidObject))"

subsection \<open>Example trees\<close>

text \<open>
  Small trees for the concrete instances below: a real file alone; a real file beside an
  empty file or an empty directory with the placeholder's name (the states the test
  \<^verbatim>\<open>TestPlaceholderAndRealFails\<close> builds); a placeholder file whose content is not
  JSON; a regular file where a placeholder directory would go; and a shallow tree with one
  file placeholder and one directory placeholder.
\<close>

definition entry_f1 :: DirEntry where
  "entry_f1 = \<lparr>Name = ''f1'', Type = EntryTypeFile, ObjectID = ''Iabc'', Mode = 420, Size = 12,
     ModTime = 1600000000123456789\<rparr>"

definition entry_d1 :: DirEntry where
  "entry_d1 = \<lparr>Name = ''d1'', Type = EntryTypeDirectory, ObjectID = ''kdef'', Mode = 493, Size = 0,
     ModTime = - 5\<rparr>"

definition placeholder_content :: "DirEntry \<Rightarrow> string" where
  "placeholder_content de = (case json_Encode de of Inl err \<Rightarrow> [] | Inr b \<Rightarrow> b)"

definition tree_real :: filesystem where
  "tree_real = Map.empty(pathKey ''f1'' \<mapsto> RegularFile ''data'')"

definition tree_torn_file :: filesystem where
  "tree_torn_file =
     Map.empty(pathKey ''f1'' \<mapsto> RegularFile ''data'', pathKey ''f1.kopia-entry'' \<mapsto> RegularFile [])"

definition tree_torn_dir :: filesystem where
  "tree_torn_dir =
     Map.empty(pathKey ''f1'' \<mapsto> RegularFile ''data'', pathKey ''f1.kopia-entry'' \<mapsto> Directory)"

definition tree_garbled :: filesystem where
  "tree_garbled = Map.empty(pathKey ''f1.kopia-entry'' \<mapsto> RegularFile ''{oops'')"

definition tree_blocked :: filesystem where
  "tree_blocked = Map.empty(pathKey ''d1.kopia-entry'' \<mapsto> RegularFile [])"

definition tree_shallow :: filesystem where
  "tree_shallow =
     Map.empty(pathKey ''f1.kopia-entry'' \<mapsto> RegularFile (placeholder_content entry_f1),
               pathKey ''d1.kopia-entry'' \<mapsto> Directory,
               pathKey ''d1.kopia-entry/.kopia-entry'' \<mapsto> RegularFile (placeholder_content entry_d1))"

definition tree_f1_written :: filesystem where
  "tree_f1_written =
     Map.empty(pathKey ''f1.kopia-entry'' \<mapsto> RegularFile (placeholder_content entry_f1))"

definition tree_d1_written :: filesystem where
  "tree_d1_written =
     Map.empty(pathKey ''d1.kopia-entry'' \<mapsto> Directory,
               pathKey ''d1.kopia-entry/.kopia-entry'' \<mapsto> RegularFile (placeholder_content entry_d1))"

definition tree_d1_made :: filesystem where
  "tree_d1_made = Map.empty(pathKey ''d1.kopia-entry'' \<mapsto> Directory)"

section \<open>Properties\<close>

subsection \<open>The filesystem calls\<close>

lemma Lstat_fails_ReadFile_fails:
  "os_Lstat fs p = Inl e \<Longrightarrow> ioutil_ReadFile fs p = Inl ENOENT"
  by (auto simp: os_Lstat_def ioutil_ReadFile_def split: if_splits option.splits)

lemma Lstat_fails_no_placeholder:
  "os_Lstat fs p = Inl e \<Longrightarrow> \<exists>err. dirEntryFromPlaceholder fs p = Inl err"
  by (simp add: dirEntryFromPlaceholder_def Lstat_fails_ReadFile_fails)

lemma ReadFile_Lstat:
  "ioutil_ReadFile fs p = Inr b \<Longrightarrow> os_Lstat fs p = Inr (FileInfo False)"
  by (auto simp: os_Lstat_def ioutil_ReadFile_def split: if_splits option.splits node.splits)

lemma Lstat_nodeAt:
  "nodeAt fs (pathKey (p @ ShallowEntrySuffix)) = Some n \<Longrightarrow>
   os_Lstat fs (p @ ShallowEntrySuffix) = Inr (FileInfo (n = Directory))"
  by (simp add: os_Lstat_def ShallowEntrySuffix_def)

lemma mkdirAllFrom_makes_directory:
  "mkdirAllFrom fs r cs = Inr fs' \<Longrightarrow> nodeAt fs' (r, rev cs) = Some Directory"
  by (cases cs) (auto simp: nodeAt_def split: option.splits node.splits sum.splits if_splits)

lemma mkdirAllFrom_present:
  "nodeAt fs (r, rev cs) = Some Directory \<Longrightarrow> mkdirAllFrom fs r cs = Inr fs"
  by (cases cs) auto

lemma MkdirAll_makes_directory:
  assumes "os_MkdirAll fs q = Inr fs'"
  shows "os_Lstat fs' q = Inr (FileInfo True)"
proof -
  from assms have q: "q \<noteq> []"
    and m: "mkdirAllFrom fs (fst (pathKey q)) (rev (snd (pathKey q))) = Inr fs'"
    by (auto simp: os_MkdirAll_def split: if_splits)
  from mkdirAllFrom_makes_directory [OF m] have "nodeAt fs' (pathKey q) = Some Directory"
    by simp
  with q show ?thesis by (simp add: os_Lstat_def)
qed

lemma MkdirAll_present:
  assumes "os_Lstat fs q = Inr (FileInfo True)"
  shows "os_MkdirAll fs q = Inr fs"
proof -
  from assms have q: "q \<noteq> []" and n: "nodeAt fs (pathKey q) = Some Directory"
    by (auto simp: os_Lstat_def split: if_splits option.splits)
  from n have "nodeAt fs (fst (pathKey q), rev (rev (snd (pathKey q)))) = Some Directory"
    by simp
  from mkdirAllFrom_present [OF this] q show ?thesis
    by (simp add: os_MkdirAll_def)
qed

lemma Join_suffix:
  "filepath_Join (p @ ShallowEntrySuffix) ShallowEntrySuffix =
   Clean (p @ ShallowEntrySuffix @ Separator # ShallowEntrySuffix)"
  by (simp add: filepath_Join_def ShallowEntrySuffix_def)

lemma WriteFile_key:
  assumes "atomic_WriteFile fs f c = Inr fs'"
  shows "f \<noteq> []" and "fs' = fs(pathKey f \<mapsto> RegularFile c)"
    and "\<not> list_all (\<lambda>c. c = ''..'') (snd (pathKey f))"
  using assms
  by (auto simp: atomic_WriteFile_def Let_def nodeAt_def split: if_splits option.splits node.splits)

lemma WriteFile_read_back:
  assumes "atomic_WriteFile fs f c = Inr fs'"
  shows "ioutil_ReadFile fs' f = Inr c"
  using WriteFile_key [OF assms] by (simp add: ioutil_ReadFile_def nodeAt_def)



subsection \<open>Clean paths\<close>

text \<open>
  A path that \<^verbatim>\<open>filepath.Clean\<close> leaves as it is stays clean when the suffix, a
  separator and the suffix again are appended to it.
\<close>

lemma splitSep_nonempty: "splitSep s \<noteq> []"
  by (induction s) (auto split: list.splits)

lemma splitSep_sepfree: "w \<in> set (splitSep s) \<Longrightarrow> Separator \<notin> set w"
  by (induction s arbitrary: w) (auto split: list.splits if_splits)

lemma splitSep_append_sep: "splitSep (a @ Separator # b) = splitSep a @ splitSep b"
  by (induction a) (auto split: list.splits simp: splitSep_nonempty)

lemma splitSep_sepfree_id: "Separator \<notin> set b \<Longrightarrow> splitSep b = [b]"
  by (induction b) auto

lemma splitSep_append_free:
  "Separator \<notin> set b \<Longrightarrow> splitSep (a @ b) = butlast (splitSep a) @ [last (splitSep a) @ b]"
  by (induction a) (auto split: list.splits simp: splitSep_nonempty splitSep_sepfree_id)

lemma joinSep_snoc: "es \<noteq> [] \<Longrightarrow> joinSep (es @ [a]) = joinSep es @ Separator # a"
  by (induction es rule: joinSep.induct) auto

lemma joinSep_snoc_app: "joinSep (es @ [a @ b]) = joinSep (es @ [a]) @ b"
  by (induction es rule: joinSep.induct) auto

lemma splitSep_joinSep:
  "es \<noteq> [] \<Longrightarrow> (\<And>e. e \<in> set es \<Longrightarrow> Separator \<notin> set e) \<Longrightarrow> splitSep (joinSep es) = es"
proof (induction es rule: joinSep.induct)
  case 1
  then show ?case by simp
next
  case (2 w)
  then show ?case by (simp add: splitSep_sepfree_id)
next
  case (3 w v va)
  then have "splitSep (joinSep (v # va)) = v # va" by simp
  moreover have "splitSep w = [w]" using 3 by (simp add: splitSep_sepfree_id)
  ultimately show ?case by (simp add: splitSep_append_sep)
qed

lemma foldl_cleanStep_length:
  "length (foldl (cleanStep r) out ws) \<le> length out + length ws"
proof (induction ws arbitrary: out)
  case Nil
  then show ?case by simp
next
  case (Cons w ws)
  have "length (cleanStep r out w) \<le> Suc (length out)"
    by (auto simp: cleanStep_def)
  with Cons [of "cleanStep r out w"] show ?case by simp
qed

lemma foldl_cleanStep_elements:
  assumes "\<And>e. e \<in> set out \<Longrightarrow> e \<noteq> [] \<and> e \<noteq> ''.'' \<and> Separator \<notin> set e"
    and "\<And>w. w \<in> set ws \<Longrightarrow> Separator \<notin> set w"
    and "e \<in> set (foldl (cleanStep r) out ws)"
  shows "e \<noteq> [] \<and> e \<noteq> ''.'' \<and> Separator \<notin> set e"
  using assms
proof (induction ws arbitrary: out)
  case Nil
  then show ?case by simp
next
  case (Cons w ws)
  have "x \<noteq> [] \<and> x \<noteq> ''.'' \<and> Separator \<notin> set x" if "x \<in> set (cleanStep r out w)" for x
    using that Cons.prems(1) Cons.prems(2) [of w]
    by (auto simp: cleanStep_def Separator_def split: if_splits dest: in_set_butlastD)
  from Cons.IH [OF this] Cons.prems(2,3) show ?case by simp
qed


lemma cleanStep_grows:
  "length out < length (cleanStep r out w) \<Longrightarrow> cleanStep r out w = out @ [w]"
  by (auto simp: cleanStep_def split: if_splits)

lemma suffix_sepfree: "Separator \<notin> set ShallowEntrySuffix"
  by (simp add: ShallowEntrySuffix_def Separator_def)

lemma cleanStep_suffixed:
  "cleanStep r out (a @ ShallowEntrySuffix) = out @ [a @ ShallowEntrySuffix]"
proof -
  have "a @ ShallowEntrySuffix \<noteq> x" if "length x < 3" for x
  proof
    assume "a @ ShallowEntrySuffix = x"
    then have "length (a @ ShallowEntrySuffix) = length x" by (rule arg_cong)
    with that show False by (simp add: ShallowEntrySuffix_def)
  qed
  from this [of "[]"] this [of "''.''"] this [of "''..''"] show ?thesis
    by (simp add: cleanStep_def)
qed

lemma pathKey_last_step:
  assumes "r = isRooted p" and "ws = splitSep p"
    and "out = foldl (cleanStep r) [] (butlast ws)"
  shows "pathKey p = (r, cleanStep r out (last ws))"
proof -
  have "ws = butlast ws @ [last ws]"
    using splitSep_nonempty [of p] assms(2) by simp
  then have "foldl (cleanStep r) [] ws = foldl (cleanStep r) [] (butlast ws @ [last ws])"
    by simp
  then have "foldl (cleanStep r) [] ws = cleanStep r out (last ws)"
    by (simp add: assms(3) del: append_butlast_last_id)
  then show ?thesis by (simp add: pathKey_def assms(1,2))
qed

text \<open>A clean path is its elements before the last, cleaned, and then its last element.\<close>

lemma clean_path_shape:
  assumes clean: "Clean p = p"
    and r: "r = isRooted p" and ws: "ws = splitSep p"
    and out: "out = foldl (cleanStep r) [] (butlast ws)"
  shows "p = renderKey (r, out @ [last ws])"
proof -
  define es where "es = cleanStep r out (last ws)"
  have key: "pathKey p = (r, es)"
    unfolding es_def by (rule pathKey_last_step [OF r ws out])
  with clean have p: "p = renderKey (r, es)" by (simp add: Clean_def)
  have es_all: "es = foldl (cleanStep r) [] (splitSep p)"
    using key by (auto simp: pathKey_def)
  show ?thesis
  proof (cases "es = []")
    case True
    with p have "p = ''/'' \<or> p = ''.''"
      by (auto simp: renderKey_def Separator_def split: if_splits)
    then show ?thesis
    proof
      assume "p = ''/''"
      then show ?thesis
        by (simp add: r ws out renderKey_def isRooted_def Separator_def cleanStep_def)
    next
      assume "p = ''.''"
      then show ?thesis
        by (simp add: r ws out renderKey_def isRooted_def Separator_def cleanStep_def)
    qed
  next
    case False
    have elems: "e \<noteq> [] \<and> e \<noteq> ''.'' \<and> Separator \<notin> set e" if "e \<in> set es" for e
      using that unfolding es_all
      by (rule foldl_cleanStep_elements [rotated 2]) (auto dest: splitSep_sepfree)
    then have sj: "splitSep (joinSep es) = es"
      using False by (intro splitSep_joinSep) auto
    have shape: "ws = (if r then [] # es else es)"
    proof (cases r)
      case True
      with p False have "p = [] @ Separator # joinSep es" by (simp add: renderKey_def)
      then have "ws = splitSep ([] @ Separator # joinSep es)" by (simp add: ws)
      also have "\<dots> = splitSep [] @ splitSep (joinSep es)" by (rule splitSep_append_sep)
      finally show ?thesis using True sj by simp
    next
      case nr: False
      with p False have "p = joinSep es" by (simp add: renderKey_def)
      then have "ws = splitSep (joinSep es)" by (simp add: ws)
      with nr sj show ?thesis by simp
    qed
    have "length out \<le> length (butlast es)"
    proof (cases r)
      case True
      with shape False have "butlast ws = [] # butlast es" by simp
      then have "out = foldl (cleanStep r) [] (butlast es)" by (simp add: out cleanStep_def)
      then show ?thesis
        using foldl_cleanStep_length [of r "[]" "butlast es"] by simp
    next
      case nr: False
      with shape have "butlast ws = butlast es" by simp
      then show ?thesis
        using foldl_cleanStep_length [of r "[]" "butlast ws"] by (simp add: out)
    qed
    with False have "length out < length es" by (cases es rule: rev_cases) auto
    then have "es = out @ [last ws]"
      unfolding es_def by (rule cleanStep_grows)
    with p show ?thesis by simp
  qed
qed

lemma isRooted_append: "p \<noteq> [] \<Longrightarrow> isRooted (p @ t) = isRooted p"
  by (cases p) (auto simp: isRooted_def)

lemma renderKey_snoc:
  "renderKey (r, out @ [a @ s, t]) = renderKey (r, out @ [a]) @ s @ Separator # t"
proof -
  have "joinSep (out @ [a @ s, t]) = joinSep ((out @ [a @ s]) @ [t])" by simp
  also have "\<dots> = joinSep (out @ [a @ s]) @ Separator # t"
    by (rule joinSep_snoc) simp
  also have "\<dots> = (joinSep (out @ [a]) @ s) @ Separator # t"
    by (simp only: joinSep_snoc_app)
  finally show ?thesis by (simp add: renderKey_def)
qed

lemma Clean_placeholder_of_clean:
  assumes "Clean p = p"
  shows "Clean (p @ ShallowEntrySuffix @ Separator # ShallowEntrySuffix) =
         p @ ShallowEntrySuffix @ Separator # ShallowEntrySuffix"
proof -
  define r where "r = isRooted p"
  define ws where "ws = splitSep p"
  define out where "out = foldl (cleanStep r) [] (butlast ws)"
  define X where "X = p @ ShallowEntrySuffix @ Separator # ShallowEntrySuffix"
  have "Clean [] = ''.''" by code_simp
  with assms have pne: "p \<noteq> []" by auto
  then have rX: "isRooted X = r" unfolding X_def r_def by (rule isRooted_append)
  have "splitSep X = splitSep ((p @ ShallowEntrySuffix) @ Separator # ShallowEntrySuffix)"
    by (simp add: X_def)
  also have "\<dots> = splitSep (p @ ShallowEntrySuffix) @ splitSep ShallowEntrySuffix"
    by (rule splitSep_append_sep)
  also have "\<dots> = (butlast ws @ [last ws @ ShallowEntrySuffix]) @ [ShallowEntrySuffix]"
    by (simp add: ws_def splitSep_append_free [OF suffix_sepfree] splitSep_sepfree_id [OF suffix_sepfree])
  finally have sX: "splitSep X = butlast ws @ [last ws @ ShallowEntrySuffix, ShallowEntrySuffix]"
    by simp
  have "foldl (cleanStep r) [] (butlast ws @ [last ws @ ShallowEntrySuffix, ShallowEntrySuffix]) =
        out @ [last ws @ ShallowEntrySuffix, ShallowEntrySuffix]"
    using cleanStep_suffixed [of r "out @ [last ws @ ShallowEntrySuffix]" "[]"]
    by (simp add: out_def cleanStep_suffixed)
  with rX sX have kX: "pathKey X = (r, out @ [last ws @ ShallowEntrySuffix, ShallowEntrySuffix])"
    by (simp add: pathKey_def)
  have "Clean X = renderKey (r, out @ [last ws]) @ ShallowEntrySuffix @ Separator # ShallowEntrySuffix"
    unfolding Clean_def kX by (rule renderKey_snoc)
  also have "renderKey (r, out @ [last ws]) = p"
    using clean_path_shape [OF assms r_def ws_def out_def] by simp
  finally show ?thesis by (simp add: X_def)
qed

text \<open>
  The node of a placeholder is never the working directory or a directory above it, so
  taking it away leaves nothing at its path.
\<close>

lemma suffixed_not_dotdot: "a @ ShallowEntrySuffix \<noteq> ''..''"
proof
  assume "a @ ShallowEntrySuffix = ''..''"
  then have "length (a @ ShallowEntrySuffix) = length ''..''" by (rule arg_cong)
  then show False by (simp add: ShallowEntrySuffix_def)
qed

lemma placeholder_key_not_implicit:
  "\<not> list_all (\<lambda>c. c = ''..'') (snd (pathKey (p @ ShallowEntrySuffix)))"
proof -
  define r where "r = isRooted (p @ ShallowEntrySuffix)"
  define out where "out = foldl (cleanStep r) [] (butlast (splitSep p))"
  have "splitSep (p @ ShallowEntrySuffix) =
        butlast (splitSep p) @ [last (splitSep p) @ ShallowEntrySuffix]"
    by (rule splitSep_append_free [OF suffix_sepfree])
  then have "snd (pathKey (p @ ShallowEntrySuffix)) = out @ [last (splitSep p) @ ShallowEntrySuffix]"
    by (simp add: pathKey_def r_def out_def cleanStep_suffixed)
  then show ?thesis by (simp add: suffixed_not_dotdot)
qed

lemma Lstat_placeholder_removed:
  "os_Lstat (fs(pathKey (p @ ShallowEntrySuffix) := None)) (p @ ShallowEntrySuffix) = Inl ENOENT"
  using placeholder_key_not_implicit [of p] by (simp add: os_Lstat_def nodeAt_def)

lemma Lstat_absent_after_removal:
  "os_Lstat fs p = Inl e \<Longrightarrow> os_Lstat (fs(k := None)) p = Inl ENOENT"
  by (auto simp: os_Lstat_def nodeAt_def split: if_splits option.splits)

subsection \<open>The JSON form of a directory entry\<close>

text \<open>
  The decoder reads back what the encoder writes: string by string, number by number,
  member by member, and then the whole object.
\<close>

lemma hexval_hexdigit: "k < 16 \<Longrightarrow> hexval (hexdigit k) = Some k"
  by (auto simp: hexval_def hexdigit_def Let_def)

lemma hexval_zero: "hexval (CHR ''0'') = Some 0"
  by (simp add: hexval_def)

lemma hex4_byte:
  assumes "n < 256"
  shows "hex4 (CHR ''0'') (CHR ''0'') (hexdigit (n div 16)) (hexdigit (n mod 16)) = Some n"
proof -
  from assms have "n div 16 < 16" by simp
  then show ?thesis
    by (simp add: hex4_def hexval_zero hexval_hexdigit)
qed

lemma of_char_less_256: "(of_char (c::char) :: nat) < 256"
  by (cases c) simp

lemma utf8_ascii: "(of_char c :: nat) < 128 \<Longrightarrow> utf8 (of_char c) = [c]"
  by (simp add: utf8_def)

lemma json_chars_escape_char:
  assumes "json_chars t = Some (s, rest)"
  shows "json_chars (json_escape_char c @ t) = Some (c # s, rest)"
proof -
  let ?n = "of_char c :: nat"
  consider (q) "c = dquote \<or> c = backslash"
    | (nl) "c = newline" | (cr) "c = CHR 0x0D" | (tab) "c = CHR 0x09"
    | (u) "c \<noteq> dquote" "c \<noteq> backslash" "c \<noteq> newline" "c \<noteq> CHR 0x0D" "c \<noteq> CHR 0x09"
          "?n < 32 \<or> c = CHR ''<'' \<or> c = CHR ''>'' \<or> c = CHR ''&''"
    | (plain) "c \<noteq> dquote" "c \<noteq> backslash" "c \<noteq> newline" "c \<noteq> CHR 0x0D" "c \<noteq> CHR 0x09"
          "\<not> (?n < 32 \<or> c = CHR ''<'' \<or> c = CHR ''>'' \<or> c = CHR ''&'')"
    by blast
  then show ?thesis
  proof cases
    case q
    then show ?thesis using assms
      by (auto simp: json_escape_char_def unescape_def dquote_def backslash_def)
  next
    case nl
    then show ?thesis using assms
      by (simp add: json_escape_char_def unescape_def dquote_def backslash_def newline_def)
  next
    case cr
    then show ?thesis using assms
      by (simp add: json_escape_char_def unescape_def dquote_def backslash_def newline_def)
  next
    case tab
    then show ?thesis using assms
      by (simp add: json_escape_char_def unescape_def dquote_def backslash_def newline_def)
  next
    case u
    from u(6) have small: "?n < 128" by auto
    have esc: "json_escape_char c =
        [backslash, CHR ''u'', CHR ''0'', CHR ''0'', hexdigit (?n div 16), hexdigit (?n mod 16)]"
      using u by (simp add: json_escape_char_def)
    have h: "hex4 (CHR ''0'') (CHR ''0'') (hexdigit (?n div 16)) (hexdigit (?n mod 16)) = Some ?n"
      by (rule hex4_byte) (rule of_char_less_256)
    show ?thesis
      using assms small by (simp add: esc h utf8_ascii dquote_def backslash_def)
  next
    case plain
    then show ?thesis using assms
      by (simp add: json_escape_char_def)
  qed
qed

lemma json_chars_escaped:
  "json_chars (concat (map json_escape_char s) @ dquote # rest) = Some (s, rest)"
  by (induction s) (simp_all add: json_chars_escape_char)

lemma parse_value_string:
  "parse_value (Suc n) (json_quote s @ rest) = Some (JString s, rest)"
  by (simp add: json_quote_def skip_ws_def is_ws_def dquote_def newline_def
      json_chars_escaped [unfolded dquote_def])

lemma is_digit_char_of: "k < 10 \<Longrightarrow> is_digit (char_of (48 + (k::nat)))"
  by (simp add: is_digit_def)

lemma digit_value_char_of: "k < 10 \<Longrightarrow> (of_char (char_of (48 + (k::nat)) :: char) :: nat) - 48 = k"
  by simp

lemma show_nat_digits: "list_all is_digit (show_nat n)"
proof (induction n rule: show_nat.induct)
  case (1 n)
  show ?case
  proof (cases "n < 10")
    case True
    then show ?thesis by (simp add: show_nat.simps [of n] is_digit_char_of)
  next
    case False
    with 1 show ?thesis
      by (simp add: show_nat.simps [of n] is_digit_char_of)
  qed
qed

lemma show_nat_nonempty: "show_nat n \<noteq> []"
  by (simp add: show_nat.simps [of n])

lemma digits_value_snoc:
  "digits_value (ds @ [c]) = 10 * digits_value ds + ((of_char c :: nat) - 48)"
  by (simp add: digits_value_def)

lemma digits_value_show_nat: "digits_value (show_nat n) = n"
proof (induction n rule: show_nat.induct)
  case (1 n)
  show ?case
  proof (cases "n < 10")
    case True
    then show ?thesis by (simp add: show_nat.simps [of n] digits_value_def)
  next
    case False
    with 1 have "digits_value (show_nat (n div 10)) = n div 10" by simp
    with False show ?thesis
      by (simp add: show_nat.simps [of n] digits_value_snoc)
  qed
qed

lemma show_nat_leading_zero:
  "show_nat n = c # r \<Longrightarrow> c = CHR ''0'' \<Longrightarrow> r = []"
proof (induction n arbitrary: c r rule: show_nat.induct)
  case (1 n)
  show ?case
  proof (cases "n < 10")
    case True
    with "1.prems" show ?thesis by (simp add: show_nat.simps [of n])
  next
    case False
    then have pos: "n div 10 \<noteq> 0" by simp
    obtain c' r' where cr: "show_nat (n div 10) = c' # r'"
      using show_nat_nonempty [of "n div 10"] by (cases "show_nat (n div 10)") auto
    from "1.prems" False cr have c': "c' = CHR ''0''"
      by (simp add: show_nat.simps [of n])
    from "1.IH" [OF False cr c'] have "r' = []" .
    with cr c' have "digits_value (show_nat (n div 10)) = 0"
      by (simp add: digits_value_def)
    with pos show ?thesis by (simp add: digits_value_show_nat)
  qed
qed

lemma nat_of_literal_show_nat: "nat_of_literal (show_nat n) = Some n"
  by (simp add: nat_of_literal_def show_nat_nonempty show_nat_digits digits_value_show_nat)

lemma show_nat_no_minus: "show_nat n = c # r \<Longrightarrow> c \<noteq> CHR ''-''"
  using show_nat_digits [of n] by (auto simp: is_digit_def)

lemma int_of_literal_show_int: "int_of_literal (show_int i) = Some i"
proof (cases "i < 0")
  case True
  then show ?thesis by (simp add: show_int_def int_of_literal_def nat_of_literal_show_nat)
next
  case False
  obtain c r where cr: "show_nat (nat i) = c # r"
    using show_nat_nonempty [of "nat i"] by (cases "show_nat (nat i)") auto
  from show_nat_no_minus [OF cr] have "c \<noteq> CHR ''-''" .
  with False cr nat_of_literal_show_nat [of "nat i"] show ?thesis
    by (simp add: show_int_def int_of_literal_def)
qed

lemma takeWhile_digits_app:
  "list_all is_digit ds \<Longrightarrow> ends_number rest \<Longrightarrow> takeWhile is_digit (ds @ rest) = ds"
  by (induction ds) (auto simp: ends_number_def is_digit_def split: list.splits)

lemma scan_frac_end: "ends_number rest \<Longrightarrow> scan_frac rest = Some ([], rest)"
  by (auto simp: scan_frac_def ends_number_def split: list.splits)

lemma scan_exp_end: "ends_number rest \<Longrightarrow> scan_exp rest = Some ([], rest)"
  by (auto simp: scan_exp_def ends_number_def split: list.splits)

lemma scan_number_digits:
  assumes ds: "list_all is_digit ds" "ds \<noteq> []"
    and lead: "\<And>c r. ds = c # r \<Longrightarrow> c = CHR ''0'' \<Longrightarrow> r = []"
    and rest: "ends_number rest"
  shows "scan_number (ds @ rest) = Some (ds, rest)"
proof -
  obtain c r where cr: "ds = c # r" using ds(2) by (cases ds) auto
  from ds(1) cr have nm: "c \<noteq> CHR ''-''" by (auto simp: is_digit_def)
  show ?thesis
  proof (cases "c = CHR ''0''")
    case True
    with lead [OF cr] have "r = []" by simp
    with cr True nm rest show ?thesis
      by (simp add: scan_number_def Let_def scan_frac_end scan_exp_end)
  next
    case False
    have tw: "takeWhile is_digit (c # r @ rest) = c # r"
      using takeWhile_digits_app [OF ds(1) rest] cr by simp
    from cr False nm rest show ?thesis
      by (simp add: scan_number_def Let_def tw scan_frac_end scan_exp_end del: takeWhile.simps)
  qed
qed

lemma scan_number_show_nat:
  "ends_number rest \<Longrightarrow> scan_number (show_nat n @ rest) = Some (show_nat n, rest)"
  by (rule scan_number_digits) (auto simp: show_nat_digits show_nat_nonempty dest: show_nat_leading_zero)

lemma scan_number_minus:
  assumes ds: "list_all is_digit ds" "ds \<noteq> []"
    and lead: "\<And>c r. ds = c # r \<Longrightarrow> c = CHR ''0'' \<Longrightarrow> r = []"
    and rest: "ends_number rest"
  shows "scan_number (CHR ''-'' # ds @ rest) = Some (CHR ''-'' # ds, rest)"
proof -
  obtain c r where cr: "ds = c # r" using ds(2) by (cases ds) auto
  show ?thesis
  proof (cases "c = CHR ''0''")
    case True
    with lead [OF cr] have "r = []" by simp
    with cr True rest show ?thesis
      by (simp add: scan_number_def Let_def scan_frac_end scan_exp_end)
  next
    case False
    have tw: "takeWhile is_digit (c # r @ rest) = c # r"
      using takeWhile_digits_app [OF ds(1) rest] cr by simp
    from cr False rest show ?thesis
      by (simp add: scan_number_def Let_def tw scan_frac_end scan_exp_end del: takeWhile.simps)
  qed
qed

lemma scan_number_show_int:
  "ends_number rest \<Longrightarrow> scan_number (show_int i @ rest) = Some (show_int i, rest)"
proof (cases "i < 0")
  case True
  assume "ends_number rest"
  then have "scan_number (CHR ''-'' # show_nat (nat (- i)) @ rest) = Some (CHR ''-'' # show_nat (nat (- i)), rest)"
    by (rule scan_number_minus [rotated 3]) (auto simp: show_nat_digits show_nat_nonempty dest: show_nat_leading_zero)
  with True show ?thesis by (simp add: show_int_def)
next
  case False
  assume "ends_number rest"
  with False show ?thesis by (simp add: show_int_def scan_number_show_nat)
qed

lemma digit_not_structural:
  assumes "is_digit c \<or> c = CHR ''-''"
  shows "\<not> is_ws c" "c \<noteq> CHR ''{''" "c \<noteq> CHR ''[''" "c \<noteq> dquote"
    "c \<noteq> CHR ''t''" "c \<noteq> CHR ''f''" "c \<noteq> CHR ''n''"
  using assms by (auto simp: is_digit_def is_ws_def dquote_def newline_def)

lemma parse_value_literal:
  assumes "scan_number (lit @ rest) = Some (lit, rest)"
    and "lit = c # r" and "is_digit c \<or> c = CHR ''-''"
  shows "parse_value (Suc n) (lit @ rest) = Some (JNumber lit, rest)"
  using assms(1) digit_not_structural [OF assms(3)]
  by (simp add: assms(2) skip_ws_def)

lemma parse_value_show_nat:
  assumes "ends_number rest"
  shows "parse_value (Suc n) (show_nat k @ rest) = Some (JNumber (show_nat k), rest)"
proof -
  obtain c r where cr: "show_nat k = c # r"
    using show_nat_nonempty [of k] by (cases "show_nat k") auto
  with show_nat_digits [of k] have "is_digit c" by simp
  with cr scan_number_show_nat [OF assms, of k] show ?thesis
    by (intro parse_value_literal) auto
qed

lemma parse_value_show_int:
  assumes "ends_number rest"
  shows "parse_value (Suc n) (show_int i @ rest) = Some (JNumber (show_int i), rest)"
proof -
  obtain c r where cr: "show_nat (nat \<bar>i\<bar>) = c # r"
    using show_nat_nonempty [of "nat \<bar>i\<bar>"] by (cases "show_nat (nat \<bar>i\<bar>)") auto
  with show_nat_digits [of "nat \<bar>i\<bar>"] have d: "is_digit c" by simp
  show ?thesis
  proof (cases "i < 0")
    case True
    then have "show_int i = CHR ''-'' # show_nat (nat \<bar>i\<bar>)" by (simp add: show_int_def)
    with scan_number_show_int [OF assms, of i] show ?thesis
      by (intro parse_value_literal) auto
  next
    case False
    then have "show_int i = c # r" using cr by (simp add: show_int_def)
    with d scan_number_show_int [OF assms, of i] show ?thesis
      by (intro parse_value_literal) auto
  qed
qed

lemma skip_ws_member: "skip_ws (json_member k tx @ ms) = json_member k tx @ ms"
  by (simp add: json_member_def json_quote_def skip_ws_def is_ws_def dquote_def newline_def)

lemma member_head: "\<exists>t. json_member k tx @ ms = dquote # t"
  by (simp add: json_member_def json_quote_def)

lemma parse_members_more:
  assumes "parse_value n (tx @ CHR '','' # ms) = Some (v, CHR '','' # ms)"
  shows "parse_members (Suc n) (json_member k tx @ CHR '','' # ms) =
         map_option (\<lambda>(kvs, r'). ((k, v) # kvs, r')) (parse_members n ms)"
proof -
  have j: "json_chars (concat (map json_escape_char k) @ dquote # CHR '':'' # tx @ CHR '','' # ms) =
           Some (k, CHR '':'' # tx @ CHR '','' # ms)"
    by (rule json_chars_escaped)
  have w: "\<not> is_ws dquote" "\<not> is_ws (CHR '':'')" "\<not> is_ws (CHR '','')"
    by (simp_all add: is_ws_def dquote_def newline_def)
  show ?thesis
    using assms w
    by (simp add: json_member_def json_quote_def skip_ws_def j)
qed

lemma parse_members_last:
  assumes "parse_value n (tx @ CHR ''}'' # rest) = Some (v, CHR ''}'' # rest)"
  shows "parse_members (Suc n) (json_member k tx @ CHR ''}'' # rest) = Some ([(k, v)], rest)"
proof -
  have j: "json_chars (concat (map json_escape_char k) @ dquote # CHR '':'' # tx @ CHR ''}'' # rest) =
           Some (k, CHR '':'' # tx @ CHR ''}'' # rest)"
    by (rule json_chars_escaped)
  have w: "\<not> is_ws dquote" "\<not> is_ws (CHR '':'')" "\<not> is_ws (CHR ''}'')"
    by (simp_all add: is_ws_def dquote_def newline_def)
  show ?thesis
    using assms w
    by (simp add: json_member_def json_quote_def skip_ws_def j)
qed

lemma parse_value_open:
  assumes "parse_members n (json_member k tx @ ms) = Some (kvs, r)"
  shows "parse_value (Suc n) (CHR ''{'' # json_member k tx @ ms) = Some (JObject kvs, r)"
proof -
  obtain t where t: "json_member k tx @ ms = dquote # t"
    using member_head by blast
  have "skip_ws (json_member k tx @ ms) = dquote # t"
    using skip_ws_member [of k tx ms] t by simp
  moreover have "skip_ws (CHR ''{'' # json_member k tx @ ms) = CHR ''{'' # json_member k tx @ ms"
    by (simp add: skip_ws_def is_ws_def newline_def)
  ultimately show ?thesis
    using assms by (simp add: dquote_def)
qed

lemma ends_number_simps:
  "ends_number (CHR '','' # r)" "ends_number (CHR ''}'' # r)"
  by (simp_all add: ends_number_def)

lemma parse_value_Marshal:
  assumes "json_Marshal de = Inr obj"
  shows "parse_value (Suc (Suc (Suc (Suc (Suc (Suc (Suc (Suc n)))))))) (obj @ rest) =
         Some (json_of_DirEntry de, rest)"
proof -
  have obj: "obj @ rest = CHR ''{'' #
          json_member ''name'' (json_quote (Name de)) @ CHR '','' #
          json_member ''type'' (json_quote (Type de)) @ CHR '','' #
          json_member ''objectID'' (json_quote (ObjectID de)) @ CHR '','' #
          json_member ''mode'' (show_nat (Mode de)) @ CHR '','' #
          json_member ''size'' (show_int (Size de)) @ CHR '','' #
          json_member ''modTime'' (show_int (ModTime de)) @ CHR ''}'' # rest"
    using assms by (auto simp: json_Marshal_def)
  show ?thesis
    unfolding obj json_of_DirEntry_def
    by (rule parse_value_open)
       (simp add: parse_members_more parse_members_last parse_value_string
          parse_value_show_nat parse_value_show_int ends_number_simps
          del: parse_value.simps parse_elements.simps parse_members.simps)
qed

lemma lower_keys:
  "map lower_ascii ''name'' = ''name'' \<and> map lower_ascii ''type'' = ''type'' \<and>
   map lower_ascii ''objectID'' = ''objectid'' \<and> map lower_ascii ''mode'' = ''mode'' \<and>
   map lower_ascii ''size'' = ''size'' \<and> map lower_ascii ''modTime'' = ''modtime''"
  by code_simp

lemma set_field_steps:
  "set_field d (''name'', JString s) = Some (d\<lparr>Name := s\<rparr>)"
  "set_field d (''type'', JString s) = Some (d\<lparr>Type := s\<rparr>)"
  "set_field d (''objectID'', JString s) = Some (d\<lparr>ObjectID := s\<rparr>)"
  "set_field d (''mode'', JNumber (show_nat k)) = Some (d\<lparr>Mode := k\<rparr>)"
  "set_field d (''size'', JNumber (show_int i)) = Some (d\<lparr>Size := i\<rparr>)"
  "set_field d (''modTime'', JNumber (show_int i)) = Some (d\<lparr>ModTime := i\<rparr>)"
  unfolding set_field_def Let_def fst_conv snd_conv
  by (simp_all only: lower_keys)
     (simp_all add: string_field_def nat_field_def int_field_def
        nat_of_literal_show_nat int_of_literal_show_int)

lemma set_fields_json_of_DirEntry:
  "json_Unmarshal (json_of_DirEntry de) emptyDirEntry = Inr de"
  by (simp add: json_Unmarshal_def json_of_DirEntry_def set_field_steps emptyDirEntry_def)

lemma Marshal_length: "json_Marshal de = Inr obj \<Longrightarrow> 7 \<le> length obj"
  by (auto simp: json_Marshal_def json_member_def json_quote_def)

lemma Marshal_head: "json_Marshal de = Inr obj \<Longrightarrow> \<exists>t. obj = CHR ''{'' # t"
  by (auto simp: json_Marshal_def)

lemma parse_value_Marshal_fuel:
  assumes "json_Marshal de = Inr obj" and "8 \<le> k"
  shows "parse_value k (obj @ rest) = Some (json_of_DirEntry de, rest)"
proof -
  from assms(2) obtain n where "k = 8 + n"
    using le_Suc_ex by blast
  then have "k = Suc (Suc (Suc (Suc (Suc (Suc (Suc (Suc n)))))))"
    by simp
  with parse_value_Marshal [OF assms(1)] show ?thesis
    by (simp del: parse_value.simps parse_elements.simps parse_members.simps)
qed

lemma Decode_Encode:
  assumes "json_Encode de = Inr b"
  shows "json_Decode b emptyDirEntry = Inr de"
proof -
  from assms obtain obj where m: "json_Marshal de = Inr obj" and b: "b = obj @ [newline]"
    by (auto simp: json_Encode_def split: sum.splits)
  from Marshal_head [OF m] obtain t where t: "obj = CHR ''{'' # t" by blast
  then have ws: "skip_ws b \<noteq> []"
    by (simp add: b skip_ws_def is_ws_def newline_def)
  from Marshal_length [OF m] have "8 \<le> Suc (length b)" by (simp add: b)
  from parse_value_Marshal_fuel [OF m this, of "[newline]"]
  have "parse_value (Suc (length b)) b = Some (json_of_DirEntry de, [newline])"
    by (simp add: b del: parse_value.simps parse_elements.simps parse_members.simps)
  with ws show ?thesis
    by (simp add: json_Decode_def set_fields_json_of_DirEntry
        del: parse_value.simps parse_elements.simps parse_members.simps)
qed

lemma char_of_not_newline: "n mod 256 \<noteq> 10 \<Longrightarrow> char_of (n::nat) \<noteq> newline"
proof
  assume n: "n mod 256 \<noteq> 10" and "char_of n = newline"
  then have "(of_char (char_of n :: char) :: nat) = of_char newline" by simp
  with n show False by (simp add: newline_def)
qed

lemma hexdigit_not_newline: "k < 16 \<Longrightarrow> hexdigit k \<noteq> newline"
  by (auto simp: hexdigit_def intro!: char_of_not_newline)

lemma escape_no_newline: "newline \<notin> set (json_escape_char c)"
proof -
  have "n div 16 < 16" if "n < 256" for n :: nat
    using that by simp
  from this [OF of_char_less_256] have "(of_char c :: nat) div 16 < 16" .
  then have "hexdigit ((of_char c :: nat) div 16) \<noteq> newline"
    and "hexdigit ((of_char c :: nat) mod 16) \<noteq> newline"
    by (simp_all add: hexdigit_not_newline)
  then show ?thesis
    by (auto simp: json_escape_char_def newline_def dquote_def backslash_def)
qed

lemma quote_no_newline: "newline \<notin> set (json_quote s)"
  using escape_no_newline by (auto simp: json_quote_def newline_def dquote_def)

lemma show_nat_no_newline: "newline \<notin> set (show_nat n)"
  using show_nat_digits [of n] by (auto simp: list_all_iff is_digit_def newline_def)

lemma show_int_no_newline: "newline \<notin> set (show_int i)"
  using show_nat_no_newline by (auto simp: show_int_def newline_def)

lemma member_no_newline: "newline \<notin> set v \<Longrightarrow> newline \<notin> set (json_member k v)"
  using quote_no_newline [of k] by (auto simp: json_member_def newline_def)

lemma Marshal_no_newline: "json_Marshal de = Inr obj \<Longrightarrow> newline \<notin> set obj"
  using member_no_newline [OF quote_no_newline] member_no_newline [OF show_nat_no_newline]
    member_no_newline [OF show_int_no_newline]
  by (auto simp: json_Marshal_def newline_def)

subsection \<open>The example trees\<close>

lemma json_Encode_content: "json_Encode de = Inr (placeholder_content de)"
  by (simp add: placeholder_content_def json_Encode_def json_Marshal_def)

lemma placeholder_content_last:
  "last (placeholder_content de) = newline" "newline \<in> set (placeholder_content de)"
  by (simp_all add: placeholder_content_def json_Encode_def json_Marshal_def)

lemma example_keys:
  "pathKey ''f1'' = (False, [''f1''])"
  "pathKey ''d1'' = (False, [''d1''])"
  "pathKey ''f1.kopia-entry'' = (False, [''f1.kopia-entry''])"
  "pathKey ''d1.kopia-entry'' = (False, [''d1.kopia-entry''])"
  "pathKey ''d1.kopia-entry/.kopia-entry'' = (False, [''d1.kopia-entry'', ''.kopia-entry''])"
  "filepath_Join ''d1.kopia-entry'' ''.kopia-entry'' = ''d1.kopia-entry/.kopia-entry''"
  "last (splitSep ''f1.kopia-entry'') = ''f1.kopia-entry''"
  "last (splitSep ''d1.kopia-entry/.kopia-entry'') = ''.kopia-entry''"
  by code_simp+

lemma write_f1:
  "WriteShallowPlaceholder Map.empty ''f1'' entry_f1 = (Inr ''f1.kopia-entry'', tree_f1_written)"
  by (simp add: WriteShallowPlaceholder_def json_Encode_content placeholderPath_def entry_f1_def
      ShallowEntrySuffix_def atomic_WriteFile_def example_keys nodeAt_def Let_def Separator_def
      tree_f1_written_def)


lemma written_trees:
  "os_Lstat tree_f1_written ''f1'' = Inl ENOENT"
  "ioutil_ReadFile tree_f1_written ''f1.kopia-entry'' = Inr (placeholder_content entry_f1)"
  "os_Lstat tree_d1_written ''d1'' = Inl ENOENT"
  by (simp_all add: os_Lstat_def ioutil_ReadFile_def example_keys nodeAt_def
      tree_f1_written_def tree_d1_written_def)

lemma shallow_tree:
  "os_Lstat tree_shallow ''f1'' = Inl ENOENT"
  "ioutil_ReadFile tree_shallow (''f1'' @ ShallowEntrySuffix) = Inr (placeholder_content entry_f1)"
  "os_Lstat tree_shallow ''d1'' = Inl ENOENT"
  "os_Lstat tree_shallow (''d1'' @ ShallowEntrySuffix) = Inr (FileInfo True)"
  "ioutil_ReadFile tree_shallow (filepath_Join (''d1'' @ ShallowEntrySuffix) ShallowEntrySuffix) =
     Inr (placeholder_content entry_d1)"
  by (simp_all add: ioutil_ReadFile_def os_Lstat_def tree_shallow_def ShallowEntrySuffix_def
      example_keys nodeAt_def)

subsection \<open>Reading a placeholder\<close>

lemma read_file_placeholder:
  assumes "os_Lstat fs p = Inl err"
    and "ioutil_ReadFile fs (p @ ShallowEntrySuffix) = Inr b"
    and "json_Decode b emptyDirEntry = Inr de"
  shows "ReadShallowPlaceholder fs p = Inr (Some de)"
  using assms ReadFile_Lstat [OF assms(2)]
  by (simp add: ReadShallowPlaceholder_def Let_def dirEntryFromPlaceholder_def)

lemma read_directory_placeholder:
  assumes "os_Lstat fs p = Inl err"
    and "os_Lstat fs (p @ ShallowEntrySuffix) = Inr (FileInfo True)"
    and "ioutil_ReadFile fs (filepath_Join (p @ ShallowEntrySuffix) ShallowEntrySuffix) = Inr b"
    and "json_Decode b emptyDirEntry = Inr de"
  shows "ReadShallowPlaceholder fs p = Inr (Some de)"
  using assms
  by (simp add: ReadShallowPlaceholder_def Let_def dirEntryFromPlaceholder_def)


lemma ReadShallowPlaceholder_both_exist:
  "os_Lstat fs p = Inr fi \<Longrightarrow> os_Lstat fs (p @ ShallowEntrySuffix) = Inr fi' \<Longrightarrow>
   ReadShallowPlaceholder fs p = Inl (Corrupt p (p @ ShallowEntrySuffix))"
  by (simp add: ReadShallowPlaceholder_def Corrupt_def Let_def)

lemma snapshotCreate_fails:
  "p \<in> set ps \<Longrightarrow> ReadShallowPlaceholder fs p = Inl e \<Longrightarrow>
   \<exists>err. snapshotCreate resolves fs ps = Inl err"
  by (induction ps) (auto split: sum.splits option.splits)

text \<open>
  C2. When a real entry exists at \<open>p\<close> and a node exists at \<open>p\<close> + suffix,
  \<^verbatim>\<open>ReadShallowPlaceholder\<close> returns the Corrupt error, and creating a snapshot of a
  tree whose paths include \<open>p\<close> fails as a whole.
\<close>

theorem real_and_placeholder_Corrupt:
  assumes "os_Lstat fs p = Inr fi"
    and "os_Lstat fs (p @ ShallowEntrySuffix) = Inr fi'"
  shows "ReadShallowPlaceholder fs p = Inl (Corrupt p (p @ ShallowEntrySuffix)) \<and>
         (p \<in> set ps \<longrightarrow> (\<exists>err. snapshotCreate resolves fs ps = Inl err))"
  using ReadShallowPlaceholder_both_exist [OF assms] snapshotCreate_fails
  by blast

theorem real_and_placeholder_Corrupt_witness:
  "os_Lstat tree_torn_dir ''f1'' = Inr (FileInfo False) \<and>
   os_Lstat tree_torn_dir (''f1'' @ ShallowEntrySuffix) = Inr (FileInfo True) \<and>
   ''f1'' \<in> set [''f0'', ''f1''] \<and>
   ReadShallowPlaceholder tree_torn_dir ''f1'' = Inl (Corrupt ''f1'' (''f1'' @ ShallowEntrySuffix)) \<and>
   (\<exists>err. snapshotCreate (\<lambda>de. True) tree_torn_dir [''f0'', ''f1''] = Inl err)"
proof -
  have a: "os_Lstat tree_torn_dir ''f1'' = Inr (FileInfo False)" by code_simp
  have b: "os_Lstat tree_torn_dir (''f1'' @ ShallowEntrySuffix) = Inr (FileInfo True)" by code_simp
  have c: "''f1'' \<in> set [''f0'', ''f1'']" by simp
  from a b c real_and_placeholder_Corrupt [OF a b, of "[''f0'', ''f1'']" "\<lambda>de. True"] show ?thesis by blast
qed

text \<open>
  C5. When a real entry exists at \<open>p\<close> and no node exists at \<open>p\<close> + suffix,
  \<^verbatim>\<open>ReadShallowPlaceholder\<close> returns no entry and no error.
\<close>

theorem real_entry_without_placeholder:
  assumes "os_Lstat fs p = Inr fi"
    and "os_Lstat fs (p @ ShallowEntrySuffix) = Inl err"
  shows "ReadShallowPlaceholder fs p = Inr None"
proof -
  obtain e where "dirEntryFromPlaceholder fs (p @ ShallowEntrySuffix) = Inl e"
    using Lstat_fails_no_placeholder [OF assms(2)] by blast
  with assms show ?thesis
    by (simp add: ReadShallowPlaceholder_def Let_def)
qed

theorem real_entry_without_placeholder_witness:
  "os_Lstat tree_real ''f1'' = Inr (FileInfo False) \<and>
   os_Lstat tree_real (''f1'' @ ShallowEntrySuffix) = Inl ENOENT \<and>
   ReadShallowPlaceholder tree_real ''f1'' = Inr None"
proof -
  have a: "os_Lstat tree_real ''f1'' = Inr (FileInfo False)" by code_simp
  have b: "os_Lstat tree_real (''f1'' @ ShallowEntrySuffix) = Inl ENOENT" by code_simp
  from a b real_entry_without_placeholder [OF a b] show ?thesis by simp
qed

text \<open>
  C6. When neither a real entry at \<open>p\<close> nor a node at \<open>p\<close> + suffix exists (and so
  nothing inside a directory there either), \<^verbatim>\<open>ReadShallowPlaceholder\<close> returns the
  NotFound error.
\<close>

theorem neither_exists_NotFound:
  assumes "os_Lstat fs p = Inl e1"
    and "os_Lstat fs (p @ ShallowEntrySuffix) = Inl e2"
  shows "ReadShallowPlaceholder fs p = Inl (NotFound p)"
proof -
  obtain e where "dirEntryFromPlaceholder fs (p @ ShallowEntrySuffix) = Inl e"
    using Lstat_fails_no_placeholder [OF assms(2)] by blast
  with assms show ?thesis
    by (simp add: ReadShallowPlaceholder_def Let_def NotFound_def)
qed

theorem neither_exists_NotFound_witness:
  "os_Lstat Map.empty ''f1'' = Inl ENOENT \<and>
   os_Lstat Map.empty (''f1'' @ ShallowEntrySuffix) = Inl ENOENT \<and>
   ReadShallowPlaceholder Map.empty ''f1'' = Inl (NotFound ''f1'')"
proof -
  have a: "os_Lstat Map.empty ''f1'' = Inl ENOENT" by code_simp
  have b: "os_Lstat Map.empty (''f1'' @ ShallowEntrySuffix) = Inl ENOENT" by code_simp
  from a b neither_exists_NotFound [OF a b] show ?thesis by simp
qed

text \<open>
  C9. With a real entry at \<open>p\<close>, any node at all at \<open>p\<close> + suffix gives the Corrupt
  error: the node may be an empty file, an empty directory, or a file that no decoder
  accepts; its content is never read.
\<close>

theorem any_node_beside_real_entry_Corrupt:
  assumes "os_Lstat fs p = Inr fi"
    and "nodeAt fs (pathKey (p @ ShallowEntrySuffix)) = Some n"
  shows "ReadShallowPlaceholder fs p = Inl (Corrupt p (p @ ShallowEntrySuffix))"
  using assms(1) Lstat_nodeAt [OF assms(2)] by (rule ReadShallowPlaceholder_both_exist)

theorem any_node_beside_real_entry_Corrupt_witness:
  "os_Lstat tree_torn_file ''f1'' = Inr (FileInfo False) \<and>
   nodeAt tree_torn_file (pathKey (''f1'' @ ShallowEntrySuffix)) = Some (RegularFile []) \<and>
   ReadShallowPlaceholder tree_torn_file ''f1'' = Inl (Corrupt ''f1'' (''f1'' @ ShallowEntrySuffix)) \<and>
   os_Lstat tree_torn_dir ''f1'' = Inr (FileInfo False) \<and>
   nodeAt tree_torn_dir (pathKey (''f1'' @ ShallowEntrySuffix)) = Some Directory \<and>
   ReadShallowPlaceholder tree_torn_dir ''f1'' = Inl (Corrupt ''f1'' (''f1'' @ ShallowEntrySuffix))"
proof -
  have a: "os_Lstat tree_torn_file ''f1'' = Inr (FileInfo False)" by code_simp
  have b: "nodeAt tree_torn_file (pathKey (''f1'' @ ShallowEntrySuffix)) = Some (RegularFile [])"
    by code_simp
  have c: "os_Lstat tree_torn_dir ''f1'' = Inr (FileInfo False)" by code_simp
  have d: "nodeAt tree_torn_dir (pathKey (''f1'' @ ShallowEntrySuffix)) = Some Directory"
    by code_simp
  from a b c d any_node_beside_real_entry_Corrupt [OF a b]
    any_node_beside_real_entry_Corrupt [OF c d]
  show ?thesis by simp
qed

text \<open>
  C10. Without a real entry at \<open>p\<close>, a node at \<open>p\<close> + suffix whose content (for a
  directory: the content of the file inside it) the JSON decoder rejects gives the
  NotFound error, with no trace of the decoder's error: the very result that the same
  tree gives once the node at \<open>p\<close> + suffix is taken away.
\<close>

theorem undecodable_placeholder_NotFound:
  assumes "os_Lstat fs p = Inl e1"
    and "os_Lstat fs (p @ ShallowEntrySuffix) = Inr fi"
    and "ioutil_ReadFile fs (if IsDir fi then filepath_Join (p @ ShallowEntrySuffix) ShallowEntrySuffix
                            else p @ ShallowEntrySuffix) = Inr b"
    and "json_Decode b emptyDirEntry = Inl je"
  shows "ReadShallowPlaceholder fs p = Inl (NotFound p) \<and>
         ReadShallowPlaceholder (fs(pathKey (p @ ShallowEntrySuffix) := None)) p =
           ReadShallowPlaceholder fs p"
proof -
  let ?gone = "fs(pathKey (p @ ShallowEntrySuffix) := None)"
  have here: "ReadShallowPlaceholder fs p = Inl (NotFound p)"
    using assms
    by (simp add: ReadShallowPlaceholder_def Let_def NotFound_def dirEntryFromPlaceholder_def)
  have a: "os_Lstat ?gone p = Inl ENOENT"
    by (rule Lstat_absent_after_removal [OF assms(1)])
  have b: "os_Lstat ?gone (p @ ShallowEntrySuffix) = Inl ENOENT"
    by (rule Lstat_placeholder_removed)
  obtain e where "dirEntryFromPlaceholder ?gone (p @ ShallowEntrySuffix) = Inl e"
    using Lstat_fails_no_placeholder [OF b] by blast
  with a b have "ReadShallowPlaceholder ?gone p = Inl (NotFound p)"
    by (simp add: ReadShallowPlaceholder_def Let_def NotFound_def)
  with here show ?thesis by simp
qed

theorem undecodable_placeholder_NotFound_witness:
  "os_Lstat tree_garbled ''f1'' = Inl ENOENT \<and>
   os_Lstat tree_garbled (''f1'' @ ShallowEntrySuffix) = Inr (FileInfo False) \<and>
   ioutil_ReadFile tree_garbled (''f1'' @ ShallowEntrySuffix) = Inr ''{oops'' \<and>
   json_Decode ''{oops'' emptyDirEntry = Inl SyntaxError \<and>
   ReadShallowPlaceholder tree_garbled ''f1'' = Inl (NotFound ''f1'') \<and>
   ReadShallowPlaceholder (tree_garbled(pathKey (''f1'' @ ShallowEntrySuffix) := None)) ''f1'' =
     ReadShallowPlaceholder tree_garbled ''f1''"
proof -
  have a: "os_Lstat tree_garbled ''f1'' = Inl ENOENT" by code_simp
  have b: "os_Lstat tree_garbled (''f1'' @ ShallowEntrySuffix) = Inr (FileInfo False)" by code_simp
  have c: "ioutil_ReadFile tree_garbled (''f1'' @ ShallowEntrySuffix) = Inr ''{oops''" by code_simp
  have d: "json_Decode ''{oops'' emptyDirEntry = Inl SyntaxError" by code_simp
  have c': "ioutil_ReadFile tree_garbled
     (if IsDir (FileInfo False) then filepath_Join (''f1'' @ ShallowEntrySuffix) ShallowEntrySuffix
      else ''f1'' @ ShallowEntrySuffix) = Inr ''{oops''"
    using c by simp
  from a b c d undecodable_placeholder_NotFound [OF a b c' d] show ?thesis by simp
qed

subsection \<open>The path of a placeholder\<close>

text \<open>
  C4, as stated, asks for the plain concatenation \<open>p\<close> + suffix + separator + suffix
  for every path and says nothing of a failure to make the directory. The path
  \<^verbatim>\<open>./d1\<close> comes back cleaned, and a regular file in the place of the directory makes
  the call fail.
\<close>

theorem placeholderPath_Directory_counterexample:
  "fst (placeholderPath Map.empty ''./d1'' EntryTypeDirectory) \<noteq>
     Inr (''./d1'' @ ShallowEntrySuffix @ Separator # ShallowEntrySuffix) \<and>
   fst (placeholderPath Map.empty ''./d1'' EntryTypeDirectory) = Inr ''d1.kopia-entry/.kopia-entry'' \<and>
   fst (placeholderPath tree_blocked ''d1'' EntryTypeDirectory) =
     Inl (Wrap (OSError ENOTDIR) ''placeholderPath dir creation'')"
  by code_simp

text \<open>
  C4 (amended). For a file entry \<^verbatim>\<open>placeholderPath\<close> returns \<open>p\<close> + suffix and
  changes nothing. For a directory entry it makes the directory \<open>p\<close> + suffix with
  \<^verbatim>\<open>os.MkdirAll\<close> (which leaves an existing directory alone); when that succeeds the
  directory exists afterwards and the result is \<^verbatim>\<open>filepath.Join\<close> of \<open>p\<close> + suffix
  and the suffix, that is the cleaned form of \<open>p\<close> + suffix + separator + suffix, which
  is that very string whenever the string is clean already, and so whenever \<open>p\<close>
  itself is clean; when it fails, the wrapped error is returned. For every other entry
  type the result is the UnsupportedEntryType error.
\<close>

theorem placeholderPath_by_type:
  "placeholderPath fs p EntryTypeFile = (Inr (p @ ShallowEntrySuffix), fs) \<and>
   (os_MkdirAll fs (p @ ShallowEntrySuffix) = Inr fs' \<longrightarrow>
      placeholderPath fs p EntryTypeDirectory =
        (Inr (Clean (p @ ShallowEntrySuffix @ Separator # ShallowEntrySuffix)), fs') \<and>
      os_Lstat fs' (p @ ShallowEntrySuffix) = Inr (FileInfo True)) \<and>
   (os_MkdirAll fs (p @ ShallowEntrySuffix) = Inr fs' \<and>
    Clean (p @ ShallowEntrySuffix @ Separator # ShallowEntrySuffix) =
      p @ ShallowEntrySuffix @ Separator # ShallowEntrySuffix \<longrightarrow>
      fst (placeholderPath fs p EntryTypeDirectory) =
        Inr (p @ ShallowEntrySuffix @ Separator # ShallowEntrySuffix)) \<and>
   (os_MkdirAll fs (p @ ShallowEntrySuffix) = Inr fs' \<and> Clean p = p \<longrightarrow>
      fst (placeholderPath fs p EntryTypeDirectory) =
        Inr (p @ ShallowEntrySuffix @ Separator # ShallowEntrySuffix)) \<and>
   (os_Lstat fs (p @ ShallowEntrySuffix) = Inr (FileInfo True) \<longrightarrow>
      os_MkdirAll fs (p @ ShallowEntrySuffix) = Inr fs) \<and>
   (os_MkdirAll fs (p @ ShallowEntrySuffix) = Inl err \<longrightarrow>
      placeholderPath fs p EntryTypeDirectory =
        (Inl (Wrap (OSError err) ''placeholderPath dir creation''), fs)) \<and>
   (et \<noteq> EntryTypeFile \<and> et \<noteq> EntryTypeDirectory \<longrightarrow>
      placeholderPath fs p et = (Inl (UnsupportedEntryType et), fs))"
proof -
  have forFile: "placeholderPath fs p EntryTypeFile = (Inr (p @ ShallowEntrySuffix), fs)"
    by (simp add: placeholderPath_def)
  have d: "EntryTypeDirectory \<noteq> EntryTypeFile"
    by (simp add: EntryTypeDirectory_def EntryTypeFile_def)
  have forDir: "placeholderPath fs p EntryTypeDirectory =
      (Inr (Clean (p @ ShallowEntrySuffix @ Separator # ShallowEntrySuffix)), fs')"
    if "os_MkdirAll fs (p @ ShallowEntrySuffix) = Inr fs'"
    using that d by (simp add: placeholderPath_def Join_suffix)
  have forErr: "placeholderPath fs p EntryTypeDirectory =
      (Inl (Wrap (OSError err) ''placeholderPath dir creation''), fs)"
    if "os_MkdirAll fs (p @ ShallowEntrySuffix) = Inl err"
    using that d by (simp add: placeholderPath_def)
  have forOther: "placeholderPath fs p et = (Inl (UnsupportedEntryType et), fs)"
    if "et \<noteq> EntryTypeFile" "et \<noteq> EntryTypeDirectory"
    using that by (simp add: placeholderPath_def UnsupportedEntryType_def)
  from forFile forDir forErr forOther MkdirAll_makes_directory MkdirAll_present
    Clean_placeholder_of_clean [of p]
  show ?thesis
    by simp
qed

theorem placeholderPath_by_type_witness:
  "os_MkdirAll Map.empty (''d1'' @ ShallowEntrySuffix) = Inr tree_d1_made \<and>
   Clean ''d1'' = ''d1'' \<and>
   Clean (''d1'' @ ShallowEntrySuffix @ Separator # ShallowEntrySuffix) =
     ''d1'' @ ShallowEntrySuffix @ Separator # ShallowEntrySuffix \<and>
   placeholderPath Map.empty ''d1'' EntryTypeFile = (Inr (''d1'' @ ShallowEntrySuffix), Map.empty) \<and>
   fst (placeholderPath Map.empty ''d1'' EntryTypeDirectory) =
     Inr (''d1'' @ ShallowEntrySuffix @ Separator # ShallowEntrySuffix) \<and>
   snd (placeholderPath Map.empty ''d1'' EntryTypeDirectory) = tree_d1_made \<and>
   os_Lstat tree_d1_made (''d1'' @ ShallowEntrySuffix) = Inr (FileInfo True) \<and>
   os_MkdirAll tree_d1_made (''d1'' @ ShallowEntrySuffix) = Inr tree_d1_made \<and>
   os_MkdirAll tree_blocked (''d1'' @ ShallowEntrySuffix) = Inl ENOTDIR \<and>
   placeholderPath tree_blocked ''d1'' EntryTypeDirectory =
     (Inl (Wrap (OSError ENOTDIR) ''placeholderPath dir creation''), tree_blocked) \<and>
   EntryTypeSymlink \<noteq> EntryTypeFile \<and> EntryTypeSymlink \<noteq> EntryTypeDirectory \<and>
   placeholderPath Map.empty ''d1'' EntryTypeSymlink =
     (Inl (UnsupportedEntryType EntryTypeSymlink), Map.empty)"
proof -
  have key: "pathKey ''d1.kopia-entry'' = (False, [''d1.kopia-entry''])" by code_simp
  have made: "os_MkdirAll Map.empty (''d1'' @ ShallowEntrySuffix) = Inr tree_d1_made"
    by (simp add: os_MkdirAll_def ShallowEntrySuffix_def key tree_d1_made_def nodeAt_def)
  have clean: "Clean (''d1'' @ ShallowEntrySuffix @ Separator # ShallowEntrySuffix) =
     ''d1'' @ ShallowEntrySuffix @ Separator # ShallowEntrySuffix" by code_simp
  have cleanp: "Clean ''d1'' = ''d1''" by code_simp
  have blocked: "os_MkdirAll tree_blocked (''d1'' @ ShallowEntrySuffix) = Inl ENOTDIR"
    by (simp add: os_MkdirAll_def ShallowEntrySuffix_def key tree_blocked_def nodeAt_def)
  have sym: "EntryTypeSymlink \<noteq> EntryTypeFile \<and> EntryTypeSymlink \<noteq> EntryTypeDirectory"
    by code_simp
  note a = placeholderPath_by_type [of Map.empty "''d1''" tree_d1_made ENOENT EntryTypeSymlink]
  note b = placeholderPath_by_type [of tree_blocked "''d1''" tree_d1_made ENOTDIR EntryTypeSymlink]
  note c = placeholderPath_by_type [of tree_d1_made "''d1''" tree_d1_made ENOENT EntryTypeSymlink]
  from a made clean sym
  have a': "placeholderPath Map.empty ''d1'' EntryTypeFile = (Inr (''d1'' @ ShallowEntrySuffix), Map.empty)"
    "placeholderPath Map.empty ''d1'' EntryTypeDirectory =
       (Inr (Clean (''d1'' @ ShallowEntrySuffix @ Separator # ShallowEntrySuffix)), tree_d1_made)"
    "os_Lstat tree_d1_made (''d1'' @ ShallowEntrySuffix) = Inr (FileInfo True)"
    "placeholderPath Map.empty ''d1'' EntryTypeSymlink =
       (Inl (UnsupportedEntryType EntryTypeSymlink), Map.empty)"
    by blast+
  from b blocked
  have b': "placeholderPath tree_blocked ''d1'' EntryTypeDirectory =
     (Inl (Wrap (OSError ENOTDIR) ''placeholderPath dir creation''), tree_blocked)"
    by blast
  from c a'(3)
  have c': "os_MkdirAll tree_d1_made (''d1'' @ ShallowEntrySuffix) = Inr tree_d1_made"
    by blast
  from made clean cleanp a' b' c' blocked sym show ?thesis
    by simp
qed

subsection \<open>Writing a placeholder and reading it back\<close>



text \<open>
  C3, as stated, calls the content newline-free with nothing after the object. The
  content written for the entry \<open>entry_f1\<close> ends with a newline character.
\<close>

theorem placeholder_content_newline_counterexample:
  "WriteShallowPlaceholder Map.empty ''f1'' entry_f1 = (Inr ''f1.kopia-entry'', tree_f1_written) \<and>
   ioutil_ReadFile tree_f1_written ''f1.kopia-entry'' = Inr (placeholder_content entry_f1) \<and>
   newline \<in> set (placeholder_content entry_f1) \<and>
   last (placeholder_content entry_f1) = newline"
  using write_f1 written_trees(2) placeholder_content_last [of entry_f1]
  by simp

text \<open>
  C3 (amended). The content that \<^verbatim>\<open>WriteShallowPlaceholder\<close> writes for an entry is
  the text of one JSON object, which holds no newline character and which the parser reads
  to its end as the object of the entry, followed by exactly one newline character and
  nothing else.
\<close>

theorem placeholder_content_format:
  assumes "WriteShallowPlaceholder fs p de = (Inr mp, fs')"
  shows "\<exists>obj. ioutil_ReadFile fs' mp = Inr (obj @ [newline]) \<and> newline \<notin> set obj \<and>
           parse_value (Suc (length obj)) obj = Some (json_of_DirEntry de, [])"
proof -
  from assms obtain b fs1 where enc: "json_Encode de = Inr b"
    and wf: "atomic_WriteFile fs1 mp b = Inr fs'"
    by (auto simp: WriteShallowPlaceholder_def split: sum.splits prod.splits)
  from enc obtain obj where m: "json_Marshal de = Inr obj" and b: "b = obj @ [newline]"
    by (auto simp: json_Encode_def split: sum.splits)
  from Marshal_length [OF m] have "8 \<le> Suc (length obj)" by simp
  from parse_value_Marshal_fuel [OF m this, of "[]"]
  have "parse_value (Suc (length obj)) obj = Some (json_of_DirEntry de, [])"
    by (simp del: parse_value.simps parse_elements.simps parse_members.simps)
  with WriteFile_read_back [OF wf] Marshal_no_newline [OF m] b show ?thesis
    by blast
qed

theorem placeholder_content_format_witness:
  "WriteShallowPlaceholder Map.empty ''f1'' entry_f1 = (Inr ''f1.kopia-entry'', tree_f1_written) \<and>
   (\<exists>obj. ioutil_ReadFile tree_f1_written ''f1.kopia-entry'' = Inr (obj @ [newline]) \<and>
          newline \<notin> set obj \<and>
          parse_value (Suc (length obj)) obj = Some (json_of_DirEntry entry_f1, []))"
  using write_f1 placeholder_content_format [OF write_f1]
  by simp

subsection \<open>Entries backed by a placeholder\<close>

text \<open>
  C7. A file entry whose placeholder file decodes to an entry, and a directory entry whose
  placeholder directory holds a file that decodes to an entry, give that entry as their
  \<^verbatim>\<open>DirEntryOrNil\<close>; \<^verbatim>\<open>Open\<close>, \<^verbatim>\<open>Child\<close> and \<^verbatim>\<open>Readdir\<close> return a
  ``not supported'' error and no content.
\<close>

theorem placeholder_entries:
  "(os_Lstat fs (fullPath fsf) = Inl e1 \<and>
    ioutil_ReadFile fs (fullPath fsf @ ShallowEntrySuffix) = Inr b1 \<and>
    json_Decode b1 emptyDirEntry = Inr de1 \<longrightarrow>
      shallowFilesystemFile_DirEntryOrNil fs fsf = Inr (Some de1)) \<and>
   (os_Lstat fs (fullPath fsd) = Inl e2 \<and>
    os_Lstat fs (fullPath fsd @ ShallowEntrySuffix) = Inr (FileInfo True) \<and>
    ioutil_ReadFile fs (filepath_Join (fullPath fsd @ ShallowEntrySuffix) ShallowEntrySuffix) = Inr b2 \<and>
    json_Decode b2 emptyDirEntry = Inr de2 \<longrightarrow>
      shallowFilesystemDirectory_DirEntryOrNil fs fsd = Inr (Some de2)) \<and>
   shallowFilesystemFile_Open fsf = Inl (New ''shallowFilesystemFile.Open not supported'') \<and>
   shallowFilesystemDirectory_Child fsd name =
     Inl (New ''shallowFilesystemDirectory.Child not supported'') \<and>
   shallowFilesystemDirectory_Readdir fsd =
     Inl (New ''shallowFilesystemDirectory.Readdir not supported'')"
  using read_file_placeholder [of fs "fullPath fsf" e1 b1 de1]
    read_directory_placeholder [of fs "fullPath fsd" e2 b2 de2]
  by (simp add: shallowFilesystemFile_DirEntryOrNil_def shallowFilesystemDirectory_DirEntryOrNil_def
      shallowFilesystemFile_Open_def shallowFilesystemDirectory_Child_def
      shallowFilesystemDirectory_Readdir_def)

theorem placeholder_entries_witness:
  "os_Lstat tree_shallow ''f1'' = Inl ENOENT \<and>
   ioutil_ReadFile tree_shallow (''f1'' @ ShallowEntrySuffix) = Inr (placeholder_content entry_f1) \<and>
   json_Decode (placeholder_content entry_f1) emptyDirEntry = Inr entry_f1 \<and>
   os_Lstat tree_shallow ''d1'' = Inl ENOENT \<and>
   os_Lstat tree_shallow (''d1'' @ ShallowEntrySuffix) = Inr (FileInfo True) \<and>
   ioutil_ReadFile tree_shallow (filepath_Join (''d1'' @ ShallowEntrySuffix) ShallowEntrySuffix) =
     Inr (placeholder_content entry_d1) \<and>
   json_Decode (placeholder_content entry_d1) emptyDirEntry = Inr entry_d1 \<and>
   shallowFilesystemFile_DirEntryOrNil tree_shallow (FilesystemEntry ''f1'') = Inr (Some entry_f1) \<and>
   shallowFilesystemDirectory_DirEntryOrNil tree_shallow (FilesystemEntry ''d1'') = Inr (Some entry_d1) \<and>
   shallowFilesystemFile_Open (FilesystemEntry ''f1'') =
     Inl (New ''shallowFilesystemFile.Open not supported'') \<and>
   shallowFilesystemDirectory_Child (FilesystemEntry ''d1'') ''x'' =
     Inl (New ''shallowFilesystemDirectory.Child not supported'') \<and>
   shallowFilesystemDirectory_Readdir (FilesystemEntry ''d1'') =
     Inl (New ''shallowFilesystemDirectory.Readdir not supported'')"
proof -
  have a1: "os_Lstat tree_shallow (fullPath (FilesystemEntry ''f1'')) = Inl ENOENT"
    using shallow_tree by simp
  have a2: "ioutil_ReadFile tree_shallow (fullPath (FilesystemEntry ''f1'') @ ShallowEntrySuffix) =
     Inr (placeholder_content entry_f1)"
    using shallow_tree by simp
  have a3: "json_Decode (placeholder_content entry_f1) emptyDirEntry = Inr entry_f1"
    by (rule Decode_Encode [OF json_Encode_content])
  have a4: "os_Lstat tree_shallow (fullPath (FilesystemEntry ''d1'')) = Inl ENOENT"
    using shallow_tree by simp
  have a5: "os_Lstat tree_shallow (fullPath (FilesystemEntry ''d1'') @ ShallowEntrySuffix) =
     Inr (FileInfo True)"
    using shallow_tree by simp
  have a6: "ioutil_ReadFile tree_shallow
     (filepath_Join (fullPath (FilesystemEntry ''d1'') @ ShallowEntrySuffix) ShallowEntrySuffix) =
     Inr (placeholder_content entry_d1)"
    using shallow_tree by simp
  have a7: "json_Decode (placeholder_content entry_d1) emptyDirEntry = Inr entry_d1"
    by (rule Decode_Encode [OF json_Encode_content])
  from a1 a2 a3 a4 a5 a6 a7
    placeholder_entries [of tree_shallow "FilesystemEntry ''f1''" ENOENT
      "placeholder_content entry_f1" entry_f1 "FilesystemEntry ''d1''" ENOENT
      "placeholder_content entry_d1" entry_d1 "''x''"]
  show ?thesis by simp
qed

end
